theory Spec2Isabelle
  imports Complex_Main "HOL-Library.Sublist"
begin

section \<open>Training orchestration of \<open>uncertainty_stream/train.py\<close>\<close>

text \<open>
  A shallow embedding of \<open>Trainer\<close> and of the k-fold driver of \<open>train.py\<close>.
  Python floats (losses, errors, scales, weights) are modelled as \<open>real\<close>, so that the
  order on validation errors is linear; NaN and infinities are outside the model.
  Epoch and fold numbers are \<open>nat\<close>, window indices and fold offsets are \<open>int\<close>.
\<close>

subsection \<open>Errors\<close>

datatype error =
    ValueError           \<comment> \<open>\<open>np.concatenate\<close> of no arrays, \<open>reshape\<close> to a shape that does not fit\<close>
  | IndexError           \<comment> \<open>channel 4 of a prediction that has fewer than five channels\<close>
  | IsADirectoryError    \<comment> \<open>\<open>os.remove\<close> of a directory\<close>
  | FileNotFoundError    \<comment> \<open>\<open>os.remove\<close> of a missing path, \<open>load\<close> of a missing snapshot\<close>

subsection \<open>Early-stopping monitor\<close>

text \<open>
  \<open>train.py\<close> constructs the monitor with \<open>EarlyStopping(patience=10)\<close>, writes its
  fields \<open>best\<close> and \<open>num_bad_epochs\<close> on resumption, reads \<open>num_bad_epochs\<close> when it
  saves a checkpoint and calls \<open>step(val_error)\<close>. The class itself lives in
  \<open>utils/training_utils.py\<close>.
\<close>

record early_stopping =
  patience :: nat
  best :: "real option"
  num_bad_epochs :: nat

text \<open>
  Modelled from the spec: the constructor of \<open>EarlyStopping\<close>, which is not among the
  sources. "On construction, holds a patience bound P and a best-error value (initially
  unset)"; the counter of bad epochs starts at 0.
\<close>

definition EarlyStopping :: "nat \<Rightarrow> early_stopping" where
  "EarlyStopping p = \<lparr>patience = p, best = None, num_bad_epochs = 0\<rparr>"

text \<open>
  Modelled from the spec: \<open>EarlyStopping.step\<close>, which is not among the sources.
  "If no best error is recorded, or current_error improves on it, record it, reset the
  bad-epoch counter to 0, return false. Otherwise increment the bad-epoch counter; if it
  reaches P, return true (terminal); else return false." To improve is to be strictly
  lower; the counter has reached P when it is at least P, which keeps a stopped monitor
  stopped.
\<close>

definition EarlyStopping_step :: "early_stopping \<Rightarrow> real \<Rightarrow> bool \<times> early_stopping" where
  "EarlyStopping_step es current_error =
     (case best es of
        None \<Rightarrow> (False, es\<lparr>best := Some current_error, num_bad_epochs := 0\<rparr>)
      | Some b \<Rightarrow>
          if current_error < b
          then (False, es\<lparr>best := Some current_error, num_bad_epochs := 0\<rparr>)
          else (patience es \<le> num_bad_epochs es + 1,
                es\<lparr>num_bad_epochs := num_bad_epochs es + 1\<rparr>))"

text \<open>The monitor driven over a sequence of validation errors: the answers, in order.\<close>

fun step_answers :: "early_stopping \<Rightarrow> real list \<Rightarrow> bool list" where
  "step_answers es [] = []"
| "step_answers es (v # vs) =
     (case EarlyStopping_step es v of (stop, es') \<Rightarrow> stop # step_answers es' vs)"

subsection \<open>Configuration, batches and collaborators\<close>

text \<open>
  The fields of \<open>Config\<close> that \<open>train.py\<close> reads or writes. The architecture name, the
  learning rate and the device only select and parametrise collaborators and are part of
  them below. \<open>'sp\<close> is the type of a training or validation split.
\<close>

record 'sp config =
  loss_fn :: string
  metric :: string
  secondary_metric :: string
  num_epochs :: nat
  sliding_window :: bool
  resume_training :: bool
  resume_from_fold :: int
  k_fold :: bool
  k_fold_splits :: "('sp \<times> 'sp) list"
  fold :: "nat option"
  training_ts :: 'sp
  validation_ts :: 'sp

text \<open>
  A batch \<open>[x, y, norm_factor, ids_idx, loss_input, window_id]\<close> is the collation of its
  samples, so all its tensors share the leading dimension: it is the list of its samples.
  A target has one value per horizon step, a prediction one row per horizon step and one
  column per quantile channel.
\<close>

type_synonym pred = "real list list"

record 'x sample =
  smp_x :: 'x
  smp_y :: "real list"
  norm_factor :: real
  ids_idx :: nat
  loss_input0 :: real
  loss_input1 :: real
  window_id :: int

type_synonym 'x batch = "'x sample list"

text \<open>
  The collaborators of the trainer, resolved by name from the configuration in
  \<open>Trainer.__init__\<close>: the model (its parameters \<open>'w\<close>, a forward function that depends on
  the train/eval mode and gives the prediction of the \<open>i\<close>-th sample of a batch of inputs),
  the loss, the optimizer \<open>'o\<close> (one call of \<open>update\<close> is \<open>zero_grad\<close>, the backward pass
  of the loss of the given batch and \<open>optimizer.step()\<close>), the plateau scheduler \<open>'s\<close>
  (which may change the optimizer's learning rate), the two metrics and the data pipeline,
  whose streams are iterated afresh in every epoch.
\<close>

record ('w, 'o, 's, 'x, 'sp) collab =
  create_model :: "'sp config \<Rightarrow> 'w"
  create_optimizer :: "'sp config \<Rightarrow> 'w \<Rightarrow> 'o"
  create_scheduler :: "'o \<Rightarrow> 's"
  forward :: "'w \<Rightarrow> bool \<Rightarrow> 'x list \<Rightarrow> nat \<Rightarrow> pred"
  criterion :: "pred list \<Rightarrow> real list list \<Rightarrow> real list \<Rightarrow> real list \<Rightarrow> real"
  update :: "'o \<Rightarrow> 'w \<Rightarrow> 'x batch \<Rightarrow> 'o \<times> 'w"
  scheduler_step :: "'s \<Rightarrow> 'o \<Rightarrow> real \<Rightarrow> 's \<times> 'o"
  get_error :: "pred list \<Rightarrow> real list list \<Rightarrow> real list \<Rightarrow> real list \<Rightarrow> real"
  get_error_2 :: "real list list \<Rightarrow> real list list \<Rightarrow> real list \<Rightarrow> real list \<Rightarrow> real"
  create_train_loader :: "'sp config \<Rightarrow> nat \<Rightarrow> 'x batch list"
  create_val_loader :: "'sp config \<Rightarrow> nat \<Rightarrow> 'x batch list"
  data_n_windows :: "'sp config \<Rightarrow> int"

subsection \<open>Checkpoint manager\<close>

text \<open>
  \<open>ModelCheckpoint\<close> lives in \<open>utils/training_utils.py\<close>; \<open>train.py\<close> constructs it from
  the configuration and calls \<open>save\<close> and \<open>load\<close>. A snapshot holds what \<open>save\<close> is given.
\<close>

record ('w, 'o, 's) snapshot =
  snap_epoch :: nat
  snap_best_error :: real
  snap_bad_epochs :: nat
  snap_model :: 'w
  snap_optimizer :: 'o
  snap_scheduler :: 's

record ('w, 'o, 's) checkpoints =
  latest_snapshot :: "nat option \<Rightarrow> ('w, 'o, 's) snapshot option"
  best_snapshot :: "nat option \<Rightarrow> ('w, 'o, 's) snapshot option"

text \<open>
  Modelled from the spec: \<open>ModelCheckpoint.save\<close>, which is not among the sources.
  "save always writes (or overwrites) the latest snapshot; additionally writes a best
  snapshot when is_best is true. Snapshot identity must be scoped by fold when
  cross-validation is active, and unscoped otherwise." The first argument is the fold of
  the configuration the manager was constructed with.
\<close>

definition ModelCheckpoint_save ::
  "nat option \<Rightarrow> bool \<Rightarrow> real \<Rightarrow> nat \<Rightarrow> nat \<Rightarrow> 'w \<Rightarrow> 'o \<Rightarrow> 's \<Rightarrow>
   ('w, 'o, 's) checkpoints \<Rightarrow> ('w, 'o, 's) checkpoints" where
  "ModelCheckpoint_save fo is_best best_error bad_epochs epoch m opt sch cp =
     (let sn = \<lparr>snap_epoch = epoch, snap_best_error = best_error, snap_bad_epochs = bad_epochs,
                 snap_model = m, snap_optimizer = opt, snap_scheduler = sch\<rparr>
      in cp\<lparr>latest_snapshot := (latest_snapshot cp)(fo := Some sn),
             best_snapshot := (if is_best then (best_snapshot cp)(fo := Some sn)
                               else best_snapshot cp)\<rparr>)"

text \<open>
  Modelled from the spec: \<open>ModelCheckpoint.load\<close>, which is not among the sources.
  "load restores the full training state needed to resume deterministically: model
  parameters, optimizer internal state, scheduler internal state, and the triple of (epoch
  to resume from = last saved epoch + 1, best error so far, consecutive-bad-epoch count).
  Loading a non-existent snapshot is a fatal configuration error."
\<close>

definition ModelCheckpoint_load ::
  "nat option \<Rightarrow> ('w, 'o, 's) checkpoints \<Rightarrow> 'w \<Rightarrow> 'o \<Rightarrow> 's \<Rightarrow>
   error + ('w \<times> 'o \<times> 's \<times> (nat \<times> real \<times> nat))" where
  "ModelCheckpoint_load fo cp m opt sch =
     (case latest_snapshot cp fo of
        None \<Rightarrow> Inl FileNotFoundError
      | Some sn \<Rightarrow>
          Inr (snap_model sn, snap_optimizer sn, snap_scheduler sn,
               (snap_epoch sn + 1, snap_best_error sn, snap_bad_epochs sn)))"

subsection \<open>The log directory\<close>

text \<open>
  \<open>./logs\<close> as a tree: a directory lists its entries by name, in the order \<open>glob\<close>
  reports them.
\<close>

datatype node = File | Dir "(string \<times> node) list"

type_synonym listing = "(string \<times> node) list"

text \<open>\<open>glob(d/.*) + glob(d/*)\<close>: the hidden names of a listing, then the others.\<close>

definition hidden :: "string \<Rightarrow> bool" where
  "hidden name = (case name of [] \<Rightarrow> False | c # _ \<Rightarrow> c = CHR ''.'')"

definition glob_logs :: "listing \<Rightarrow> string list" where
  "glob_logs d = filter hidden (map fst d) @ filter (\<lambda>n. \<not> hidden n) (map fst d)"

text \<open>\<open>os.remove(f)\<close> and \<open>shutil.rmtree(f)\<close> on an entry of a listing.\<close>

definition os_remove :: "string \<Rightarrow> listing \<Rightarrow> error + listing" where
  "os_remove f d =
     (case map_of d f of
        None \<Rightarrow> Inl FileNotFoundError
      | Some File \<Rightarrow> Inr (filter (\<lambda>e. fst e \<noteq> f) d)
      | Some (Dir _) \<Rightarrow> Inl IsADirectoryError)"

definition rmtree :: "string \<Rightarrow> listing \<Rightarrow> listing" where
  "rmtree f d = filter (\<lambda>e. fst e \<noteq> f) d"

text \<open>The loop of lines 69 to 73: a directory is removed recursively.\<close>

fun remove_logs_root :: "string list \<Rightarrow> listing \<Rightarrow> error + listing" where
  "remove_logs_root [] d = Inr d"
| "remove_logs_root (f # fs) d =
     (case os_remove f d of
        Inr d' \<Rightarrow> remove_logs_root fs d'
      | Inl IsADirectoryError \<Rightarrow> remove_logs_root fs (rmtree f d)
      | Inl e \<Rightarrow> Inl e)"

text \<open>The loop of lines 76 and 77: no handler, the first error leaves the constructor.\<close>

fun remove_logs_fold :: "string list \<Rightarrow> listing \<Rightarrow> error + listing" where
  "remove_logs_fold [] d = Inr d"
| "remove_logs_fold (f # fs) d =
     (case os_remove f d of
        Inr d' \<Rightarrow> remove_logs_fold fs d'
      | Inl e \<Rightarrow> Inl e)"

text \<open>Decimal digits of a number, for the directory name \<open>fold_{k}\<close>.\<close>

fun str_nat :: "nat \<Rightarrow> string" where
  "str_nat n =
     (if n < 10 then [''0123456789'' ! n]
      else str_nat (n div 10) @ [''0123456789'' ! (n mod 10)])"

definition fold_dir :: "nat \<Rightarrow> string" where
  "fold_dir k = ''fold_'' @ str_nat k"

text \<open>
  The cleanup of a run that is not resumed (lines 67 to 77). With no fold the entries of
  \<open>./logs\<close> are removed; with fold \<open>k\<close> the entries of \<open>./logs/fold_k\<close>, where a
  missing directory matches nothing.
\<close>

definition remove_previous_logs :: "nat option \<Rightarrow> listing \<Rightarrow> error + listing" where
  "remove_previous_logs fo logs =
     (case fo of
        None \<Rightarrow> remove_logs_root (glob_logs logs) logs
      | Some k \<Rightarrow>
          (case map_of logs (fold_dir k) of
             Some (Dir d) \<Rightarrow>
               (case remove_logs_fold (glob_logs d) d of
                  Inl e \<Rightarrow> Inl e
                | Inr d' \<Rightarrow>
                    Inr (map (\<lambda>e. if fst e = fold_dir k then (fst e, Dir d') else e) logs))
           | _ \<Rightarrow> Inr logs))"

subsection \<open>The trainer\<close>

text \<open>
  The attributes of a \<open>Trainer\<close>. \<open>training\<close> is the mode of the model, switched by
  \<open>model.train()\<close> and \<open>model.eval()\<close>; \<open>model_checkpoint\<close> is the storage the checkpoint
  manager writes to; \<open>writer\<close> is the sequence of \<open>add_scalar(tag, value, step)\<close> calls
  received by the scalar log sink.
\<close>

record ('w, 'o, 's, 'x, 'sp) trainer =
  config :: "'sp config"
  model :: 'w
  training :: bool
  optimizer :: 'o
  scheduler :: 's
  early_stopping :: early_stopping
  agg_sum :: bool
  train_loader :: "nat \<Rightarrow> 'x batch list"
  val_loader :: "nat \<Rightarrow> 'x batch list"
  n_windows :: int
  start_epoch :: nat
  min_val_error :: "real option"
  model_checkpoint :: "('w, 'o, 's) checkpoints"
  writer :: "(string \<times> real \<times> nat) list"

text \<open>
  \<open>Trainer.__init__\<close> (lines 24 to 81), given the stored checkpoints and \<open>./logs\<close>.
  The event file the \<open>SummaryWriter\<close> of lines 80 and 81 creates after the cleanup is
  not represented in the log directory.
\<close>

definition Trainer_init ::
  "('w, 'o, 's, 'x, 'sp) collab \<Rightarrow> 'sp config \<Rightarrow> ('w, 'o, 's) checkpoints \<Rightarrow> listing \<Rightarrow>
   error + (('w, 'o, 's, 'x, 'sp) trainer \<times> listing)" where
  "Trainer_init C cfg cp logs =
     (let m = create_model C cfg;
          opt = create_optimizer C cfg m;
          sch = create_scheduler C opt;
          es = EarlyStopping 10;
          T = \<lparr>config = cfg, model = m, training = True, optimizer = opt, scheduler = sch,
               early_stopping = es, agg_sum = (take 3 (loss_fn cfg) = ''SPL''),
               train_loader = create_train_loader C cfg, val_loader = create_val_loader C cfg,
               n_windows = data_n_windows C cfg, start_epoch = 1, min_val_error = None,
               model_checkpoint = cp, writer = []\<rparr>
      in if resume_training cfg
         then (case ModelCheckpoint_load (fold cfg) cp m opt sch of
                 Inl e \<Rightarrow> Inl e
               | Inr (m', opt', sch', (se, mve, nbe)) \<Rightarrow>
                   Inr (T\<lparr>model := m', optimizer := opt', scheduler := sch',
                          start_epoch := se, min_val_error := Some mve,
                          early_stopping := es\<lparr>best := Some mve, num_bad_epochs := nbe\<rparr>\<rparr>,
                        logs))
         else (case remove_previous_logs (fold cfg) logs of
                 Inl e \<Rightarrow> Inl e
               | Inr logs' \<Rightarrow> Inr (T, logs')))"

text \<open>\<open>self.loss_agg\<close>: \<open>np.sum\<close> or \<open>np.mean\<close> (line 42).\<close>

definition loss_agg :: "('w, 'o, 's, 'x, 'sp) trainer \<Rightarrow> real list \<Rightarrow> real" where
  "loss_agg T ls = (if agg_sum T then sum_list ls else sum_list ls / real (length ls))"

text \<open>The lists a pass over the batches fills, one array per \<open>append\<close>.\<close>

record accum =
  losses :: "real list"
  epoch_preds :: "pred list list"
  epoch_ys :: "real list list list"
  epoch_ws :: "real list list"
  epoch_scales :: "real list list"

definition no_accum :: accum where
  "no_accum = \<lparr>losses = [], epoch_preds = [], epoch_ys = [], epoch_ws = [], epoch_scales = []\<rparr>"

text \<open>\<open>self.model(*x) * norm_factor[:, None, None]\<close>.\<close>

definition predict ::
  "('w, 'o, 's, 'x, 'sp) collab \<Rightarrow> 'w \<Rightarrow> bool \<Rightarrow> 'x batch \<Rightarrow> pred list" where
  "predict C w mode b =
     map (\<lambda>i. map (map (\<lambda>v. v * norm_factor (b ! i))) (forward C w mode (map smp_x b) i))
       [0..<length b]"

text \<open>\<open>self.criterion(preds, y, *loss_input)\<close>.\<close>

definition batch_loss ::
  "('w, 'o, 's, 'x, 'sp) collab \<Rightarrow> pred list \<Rightarrow> 'x batch \<Rightarrow> real" where
  "batch_loss C preds b = criterion C preds (map smp_y b) (map loss_input0 b) (map loss_input1 b)"

text \<open>Indexing a tensor by a boolean mask of its leading dimension.\<close>

definition masked :: "'a list \<Rightarrow> bool list \<Rightarrow> 'a list" where
  "masked vs sel = map fst (filter snd (zip vs sel))"

text \<open>
  \<open>reshape(-1, n)\<close> of a flattened array: rows of \<open>n\<close> values in order, and an error when
  the number of values is not a multiple of \<open>n\<close>. No value gives no row.
\<close>

fun chunks :: "nat \<Rightarrow> 'a list \<Rightarrow> 'a list list" where
  "chunks n vs = (if n = 0 \<or> vs = [] then [] else take n vs # chunks n (drop n vs))"

declare chunks.simps [simp del]

definition reshape_rows :: "nat \<Rightarrow> 'a list \<Rightarrow> error + 'a list list" where
  "reshape_rows n vs = (if length vs mod n = 0 then Inr (chunks n vs) else Inl ValueError)"

text \<open>\<open>reshape(-1, 28, 9)\<close> of a flattened array: blocks of 28 rows of 9 values.\<close>

definition reshape_28_9 :: "real list \<Rightarrow> error + pred list" where
  "reshape_28_9 vs =
     (if length vs mod (28 * 9) = 0 then Inr (chunks 28 (chunks 9 vs)) else Inl ValueError)"

text \<open>
  Lines 129 to 141: what a training batch appends to the arrays of the epoch. In
  sliding-window mode the selected targets are reshaped to rows of 28 values and the
  selected predictions to blocks of 28 by 9, whatever their shape was; scale and weight
  are one number per sample, which \<open>reshape(-1)\<close> leaves as they are.
\<close>

definition accumulate_batch ::
  "bool \<Rightarrow> int \<Rightarrow> 'x batch \<Rightarrow> pred list \<Rightarrow> accum \<Rightarrow> error + accum" where
  "accumulate_batch sw nw b preds a =
     (let sel = map (\<lambda>s. window_id s = nw - 1) b
      in if sw
         then (if 0 < length (filter (\<lambda>m. m) sel)
               then (case reshape_rows 28 (concat (masked (map smp_y b) sel)) of
                       Inl e \<Rightarrow> Inl e
                     | Inr ys \<Rightarrow>
                    (case reshape_28_9 (concat (concat (masked preds sel))) of
                       Inl e \<Rightarrow> Inl e
                     | Inr ps \<Rightarrow>
                         Inr (a\<lparr>epoch_ys := epoch_ys a @ [ys],
                                epoch_scales := epoch_scales a @ [masked (map loss_input0 b) sel],
                                epoch_ws := epoch_ws a @ [masked (map loss_input1 b) sel],
                                epoch_preds := epoch_preds a @ [ps]\<rparr>)))
               else Inr a)
         else Inr (a\<lparr>epoch_ys := epoch_ys a @ [map smp_y b],
                      epoch_scales := epoch_scales a @ [map loss_input0 b],
                      epoch_ws := epoch_ws a @ [map loss_input1 b],
                      epoch_preds := epoch_preds a @ [preds]\<rparr>))"

text \<open>
  The loop over the training batches (lines 119 to 153). An error of a reshape leaves the
  loop before the loss of the batch is computed.
\<close>

fun train_batches ::
  "('w, 'o, 's, 'x, 'sp) collab \<Rightarrow> bool \<Rightarrow> int \<Rightarrow> bool \<Rightarrow> 'o \<Rightarrow> 'w \<Rightarrow> accum \<Rightarrow>
   'x batch list \<Rightarrow> error + (('o \<times> 'w) \<times> accum)" where
  "train_batches C sw nw mode opt w a [] = Inr ((opt, w), a)"
| "train_batches C sw nw mode opt w a (b # bs) =
     (let preds = predict C w mode b
      in case accumulate_batch sw nw b preds a of
           Inl e \<Rightarrow> Inl e
         | Inr a1 \<Rightarrow>
             (let loss = batch_loss C preds b;
                  a2 = a1\<lparr>losses := losses a1 @ [loss]\<rparr>
              in case update C opt w b of
                   (opt', w') \<Rightarrow> train_batches C sw nw mode opt' w' a2 bs))"

text \<open>The loop over the validation batches (lines 88 to 101).\<close>

fun val_batches ::
  "('w, 'o, 's, 'x, 'sp) collab \<Rightarrow> bool \<Rightarrow> 'w \<Rightarrow> accum \<Rightarrow> 'x batch list \<Rightarrow> accum" where
  "val_batches C mode w a [] = a"
| "val_batches C mode w a (b # bs) =
     (let a1 = a\<lparr>epoch_ys := epoch_ys a @ [map smp_y b],
                 epoch_scales := epoch_scales a @ [map loss_input0 b],
                 epoch_ws := epoch_ws a @ [map loss_input1 b]\<rparr>;
          preds = predict C w mode b;
          a2 = a1\<lparr>epoch_preds := epoch_preds a1 @ [preds]\<rparr>;
          loss = batch_loss C preds b
      in val_batches C mode w (a2\<lparr>losses := losses a2 @ [loss]\<rparr>) bs)"

text \<open>\<open>np.concatenate(arrays, axis=0)\<close> raises on an empty sequence.\<close>

definition np_concatenate :: "'a list list \<Rightarrow> error + 'a list" where
  "np_concatenate arrays = (if arrays = [] then Inl ValueError else Inr (concat arrays))"

text \<open>The four concatenations of lines 103, 104 and 156, 157, in their order.\<close>

definition concatenate_epoch ::
  "accum \<Rightarrow> error + (pred list \<times> real list list \<times> real list \<times> real list)" where
  "concatenate_epoch a =
     (case np_concatenate (epoch_preds a) of
        Inl e \<Rightarrow> Inl e
      | Inr ps \<Rightarrow>
     (case np_concatenate (epoch_ys a) of
        Inl e \<Rightarrow> Inl e
      | Inr ys \<Rightarrow>
     (case np_concatenate (epoch_ws a) of
        Inl e \<Rightarrow> Inl e
      | Inr ws \<Rightarrow>
     (case np_concatenate (epoch_scales a) of
        Inl e \<Rightarrow> Inl e
      | Inr scs \<Rightarrow> Inr (ps, ys, ws, scs)))))"

text \<open>\<open>epoch_preds[:, :, 4]\<close>: the fifth channel of every row of every prediction.\<close>

definition channel_4 :: "pred list \<Rightarrow> error + real list list" where
  "channel_4 ps =
     (if list_all (list_all (\<lambda>row. 4 < length row)) ps
      then Inr (map (map (\<lambda>row. row ! 4)) ps)
      else Inl IndexError)"

text \<open>\<open>Trainer._get_val_loss_and_err\<close> (lines 83 to 109), in the given epoch.\<close>

definition get_val_loss_and_err ::
  "('w, 'o, 's, 'x, 'sp) collab \<Rightarrow> ('w, 'o, 's, 'x, 'sp) trainer \<Rightarrow> nat \<Rightarrow>
   error + ((real \<times> real \<times> real) \<times> ('w, 'o, 's, 'x, 'sp) trainer)" where
  "get_val_loss_and_err C T epoch =
     (let T1 = T\<lparr>training := False\<rparr>;
          a = val_batches C (training T1) (model T1) no_accum (val_loader T1 epoch)
      in case concatenate_epoch a of
           Inl e \<Rightarrow> Inl e
         | Inr (ps, ys, ws, scs) \<Rightarrow>
             (let val_error = get_error C ps ys scs ws
              in case channel_4 ps of
                   Inl e \<Rightarrow> Inl e
                 | Inr p4 \<Rightarrow>
                     Inr ((loss_agg T1 (losses a), val_error, get_error_2 C p4 ys scs ws), T1)))"

subsection \<open>The epoch loop\<close>

text \<open>
  What one completed epoch computed and handed to its collaborators: the losses of its
  training batches, the six logged values, the arguments \<open>is_best\<close>, \<open>min_val_error\<close> and
  \<open>num_bad_epochs\<close> of the call of \<open>save\<close>, the checkpoint storage that call leaves, the
  step of the \<open>add_scalar\<close> calls and the answer of the early-stopping monitor.
\<close>

record ('w, 'o, 's) outcome =
  oc_epoch :: nat
  oc_losses :: "real list"
  oc_train_loss :: real
  oc_train_error :: real
  oc_train_error_2 :: real
  oc_val_loss :: real
  oc_val_error :: real
  oc_val_error_2 :: real
  oc_is_best :: bool
  oc_min_val_error :: real
  oc_bad_epochs :: nat
  oc_checkpoints :: "('w, 'o, 's) checkpoints"
  oc_step :: nat
  oc_stop :: bool

text \<open>Lines 159 to 162.\<close>

definition train_loss_of :: "('w, 'o, 's, 'x, 'sp) trainer \<Rightarrow> real list \<Rightarrow> real" where
  "train_loss_of T ls =
     (if agg_sum T then loss_agg T ls / real_of_int (n_windows T) else loss_agg T ls)"

text \<open>Lines 178 to 188: the new \<open>min_val_error\<close> and \<open>is_best\<close>.\<close>

definition track_best :: "real option \<Rightarrow> real \<Rightarrow> real \<times> bool" where
  "track_best mve val_error =
     (case mve of
        None \<Rightarrow> (val_error, True)
      | Some m \<Rightarrow> if val_error < m then (val_error, True) else (m, False))"

text \<open>
  The body of the loop of \<open>Trainer.train\<close> (lines 115 to 204) for one epoch. The index
  \<open>i\<close> used for the log step is the one the loop over the training batches left behind,
  that of the last batch; the concatenations have failed before when there was no batch.
  An error of the loop over the batches ends the epoch.
\<close>

definition train_epoch ::
  "('w, 'o, 's, 'x, 'sp) collab \<Rightarrow> ('w, 'o, 's, 'x, 'sp) trainer \<Rightarrow> nat \<Rightarrow>
   error + (('w, 'o, 's) outcome \<times> ('w, 'o, 's, 'x, 'sp) trainer)" where
  "train_epoch C T epoch =
     (let T1 = T\<lparr>training := True\<rparr>;
          bs = train_loader T1 epoch
      in case train_batches C (sliding_window (config T1)) (n_windows T1) (training T1)
                (optimizer T1) (model T1) no_accum bs of
           Inl e \<Rightarrow> Inl e
         | Inr ((opt', w'), a) \<Rightarrow>
     (let T2 = T1\<lparr>optimizer := opt', model := w'\<rparr>;
          i = length bs - 1
      in case concatenate_epoch a of
           Inl e \<Rightarrow> Inl e
         | Inr (ps, ys, ws, scs) \<Rightarrow>
     (let train_loss = train_loss_of T2 (losses a);
          train_error = get_error C ps ys scs ws
      in case channel_4 ps of
           Inl e \<Rightarrow> Inl e
         | Inr p4 \<Rightarrow>
     (let train_error_2 = get_error_2 C p4 ys scs ws
      in case get_val_loss_and_err C T2 epoch of
           Inl e \<Rightarrow> Inl e
         | Inr ((val_loss, val_error, val_error_2), T3) \<Rightarrow>
     (case scheduler_step C (scheduler T3) (optimizer T3) val_error of
        (sch', opt'') \<Rightarrow>
     (case track_best (min_val_error T3) val_error of
        (mve, is_best) \<Rightarrow>
     (let T4 = T3\<lparr>scheduler := sch', optimizer := opt'', min_val_error := Some mve\<rparr>;
          cp = ModelCheckpoint_save (fold (config T4)) is_best mve
                 (num_bad_epochs (early_stopping T4)) epoch
                 (model T4) (optimizer T4) (scheduler T4) (model_checkpoint T4);
          T5 = T4\<lparr>model_checkpoint := cp,
                  writer := writer T4 @
                    [(loss_fn (config T4) @ ''/train'', train_loss, epoch * i),
                     (loss_fn (config T4) @ ''/val'', val_loss, epoch * i),
                     (metric (config T4) @ ''/train'', train_error, epoch * i),
                     (metric (config T4) @ ''/val'', val_error, epoch * i),
                     (secondary_metric (config T4) @ ''/train'', train_error_2, epoch * i),
                     (secondary_metric (config T4) @ ''/val'', val_error_2, epoch * i)]\<rparr>
      in case EarlyStopping_step (early_stopping T5) val_error of
           (stop, es') \<Rightarrow>
             Inr (\<lparr>oc_epoch = epoch, oc_losses = losses a, oc_train_loss = train_loss,
                   oc_train_error = train_error,
                   oc_train_error_2 = train_error_2, oc_val_loss = val_loss,
                   oc_val_error = val_error, oc_val_error_2 = val_error_2,
                   oc_is_best = is_best, oc_min_val_error = mve,
                   oc_bad_epochs = num_bad_epochs (early_stopping T4),
                   oc_checkpoints = cp, oc_step = epoch * i, oc_stop = stop\<rparr>,
                  T5\<lparr>early_stopping := es'\<rparr>))))))))"

text \<open>
  \<open>for epoch in range(...)\<close> with its \<open>break\<close>: the outcomes of the epochs that were
  run, and the trainer they leave. An exception in an epoch ends the run.
\<close>

fun epoch_loop ::
  "('w, 'o, 's, 'x, 'sp) collab \<Rightarrow> ('w, 'o, 's, 'x, 'sp) trainer \<Rightarrow> nat list \<Rightarrow>
   error + (('w, 'o, 's) outcome list \<times> ('w, 'o, 's, 'x, 'sp) trainer)" where
  "epoch_loop C T [] = Inr ([], T)"
| "epoch_loop C T (epoch # epochs) =
     (case train_epoch C T epoch of
        Inl e \<Rightarrow> Inl e
      | Inr (oc, T') \<Rightarrow>
          if oc_stop oc then Inr ([oc], T')
          else (case epoch_loop C T' epochs of
                  Inl e \<Rightarrow> Inl e
                | Inr (ocs, T'') \<Rightarrow> Inr (oc # ocs, T'')))"

text \<open>\<open>Trainer.train\<close>: \<open>range(self.start_epoch, self.config.num_epochs + 1)\<close>.\<close>

definition train ::
  "('w, 'o, 's, 'x, 'sp) collab \<Rightarrow> ('w, 'o, 's, 'x, 'sp) trainer \<Rightarrow>
   error + (('w, 'o, 's) outcome list \<times> ('w, 'o, 's, 'x, 'sp) trainer)" where
  "train C T = epoch_loop C T [start_epoch T ..< num_epochs (config T) + 1]"

subsection \<open>The k-fold driver\<close>

text \<open>
  A run of one trainer: the trainer as constructed, the outcomes of its epochs, the
  trainer at the end.
\<close>

type_synonym ('w, 'o, 's, 'x, 'sp) run =
  "('w, 'o, 's, 'x, 'sp) trainer \<times> ('w, 'o, 's) outcome list \<times> ('w, 'o, 's, 'x, 'sp) trainer"

text \<open>
  The loop over \<open>enumerate(config.k_fold_splits)\<close> (lines 222 to 232). The configuration
  is one object, changed in place; the checkpoints and the log directory outlive a fold.
\<close>

fun fold_loop ::
  "('w, 'o, 's, 'x, 'sp) collab \<Rightarrow> int \<Rightarrow> 'sp config \<Rightarrow> ('w, 'o, 's) checkpoints \<Rightarrow> listing \<Rightarrow>
   (nat \<times> 'sp \<times> 'sp) list \<Rightarrow> error + ('w, 'o, 's, 'x, 'sp) run list" where
  "fold_loop C start_fold cfg cp logs [] = Inr []"
| "fold_loop C start_fold cfg cp logs ((k, fold_train_ts, fold_val_ts) # rest) =
     (if int k < start_fold then fold_loop C start_fold cfg cp logs rest
      else
        (let cfg1 = cfg\<lparr>fold := Some (k + 1), training_ts := fold_train_ts,
                       validation_ts := fold_val_ts\<rparr>
         in case Trainer_init C cfg1 cp logs of
              Inl e \<Rightarrow> Inl e
            | Inr (T, logs') \<Rightarrow>
        (case train C T of
           Inl e \<Rightarrow> Inl e
         | Inr (ocs, T') \<Rightarrow>
        (case fold_loop C start_fold (cfg1\<lparr>resume_training := False\<rparr>)
                (model_checkpoint T') logs' rest of
           Inl e \<Rightarrow> Inl e
         | Inr runs \<Rightarrow> Inr ((T, ocs, T') # runs)))))"

text \<open>The body of \<open>__main__\<close> (lines 212 to 236).\<close>

definition main ::
  "('w, 'o, 's, 'x, 'sp) collab \<Rightarrow> 'sp config \<Rightarrow> ('w, 'o, 's) checkpoints \<Rightarrow> listing \<Rightarrow>
   error + ('w, 'o, 's, 'x, 'sp) run list" where
  "main C cfg cp logs =
     (if k_fold cfg
      then (let start_fold = (if resume_training cfg then resume_from_fold cfg - 1 else 0)
            in fold_loop C start_fold cfg cp logs (enumerate 0 (k_fold_splits cfg)))
      else (case Trainer_init C (cfg\<lparr>fold := None\<rparr>) cp logs of
              Inl e \<Rightarrow> Inl e
            | Inr (T, logs') \<Rightarrow>
                (case train C T of
                   Inl e \<Rightarrow> Inl e
                 | Inr (ocs, T') \<Rightarrow> Inr [(T, ocs, T')])))"

subsection \<open>Reference quantities and a small instance\<close>


text \<open>
  The spec's rule of aggregation: "If sliding-window mode is enabled: only accumulate
  prediction/target/scale/weight for samples whose window_index equals the last window
  position (n_windows - 1). If sliding-window mode is disabled: accumulate every sample
  unconditionally."
\<close>

definition spec_aggregated :: "bool \<Rightarrow> int \<Rightarrow> 'x sample \<Rightarrow> bool" where
  "spec_aggregated sw nw s = (if sw then window_id s = nw - 1 else True)"

text \<open>The values of a batch-aligned tensor that belong to the aggregated samples.\<close>

definition selected :: "bool \<Rightarrow> int \<Rightarrow> 'x batch \<Rightarrow> 'a list \<Rightarrow> 'a list" where
  "selected sw nw b vs = map snd (filter (\<lambda>sp. spec_aggregated sw nw (fst sp)) (zip b vs))"

text \<open>
  The shapes the reshapes of the sliding-window branch are written for: a target of 28
  horizon steps, a prediction of 28 rows of 9 quantile channels.
\<close>

definition horizon_28 :: "'x sample \<Rightarrow> bool" where
  "horizon_28 s = (length (smp_y s) = 28)"

definition shape_28_9 :: "pred \<Rightarrow> bool" where
  "shape_28_9 p = (length p = 28 \<and> list_all (\<lambda>row. length row = 9) p)"

text \<open>
  An instance to run the definitions on. The parameters of the model are one number,
  which every training batch increases by one and which every prediction repeats in its
  five channels; the loss of a batch is the sum of its targets; the primary error is the
  distance of the first predicted value from 4. The training stream has two batches, of
  losses 4 and 6. Targets have one step and predictions one row, and sliding-window mode
  is off, so that no reshape to rows of 28 is met.
\<close>

definition ex_sample :: "real \<Rightarrow> int \<Rightarrow> real sample" where
  "ex_sample t wid = \<lparr>smp_x = 1, smp_y = [t], norm_factor = 1, ids_idx = 0,
                       loss_input0 = 1, loss_input1 = 1, window_id = wid\<rparr>"

definition ex_collab :: "(real, nat, nat, real, nat) collab" where
  "ex_collab =
     \<lparr>create_model = (\<lambda>cfg. 0),
      create_optimizer = (\<lambda>cfg m. 0),
      create_scheduler = (\<lambda>opt. 0),
      forward = (\<lambda>w mode xs i. [[w, w, w, w, w]]),
      criterion = (\<lambda>ps ys scs ws. sum_list (concat ys)),
      update = (\<lambda>opt w b. (opt + 1, w + 1)),
      scheduler_step = (\<lambda>sch opt v. (sch + 1, opt)),
      get_error = (\<lambda>ps ys scs ws. case ps of ((v # _) # _) # _ \<Rightarrow> \<bar>v - 4\<bar> | _ \<Rightarrow> 0),
      get_error_2 = (\<lambda>p4 ys scs ws. 0),
      create_train_loader = (\<lambda>cfg epoch. [[ex_sample 1 0, ex_sample 3 1], [ex_sample 6 1]]),
      create_val_loader = (\<lambda>cfg epoch. [[ex_sample 5 0]]),
      data_n_windows = (\<lambda>cfg. 2)\<rparr>"

definition ex_config :: "nat config" where
  "ex_config =
     \<lparr>loss_fn = ''SPL'', metric = ''WSPL'', secondary_metric = ''WRMSSE'', num_epochs = 3,
      sliding_window = False, resume_training = False, resume_from_fold = 1, k_fold = False,
      k_fold_splits = [(0, 1), (1, 2), (2, 3)], fold = None, training_ts = 0,
      validation_ts = 1\<rparr>"

definition no_checkpoints :: "(real, nat, nat) checkpoints" where
  "no_checkpoints = \<lparr>latest_snapshot = (\<lambda>fo. None), best_snapshot = (\<lambda>fo. None)\<rparr>"

text \<open>The trainer \<open>Trainer(config)\<close> builds in this instance for a run that is not resumed.\<close>

definition ex_trainer :: "nat config \<Rightarrow> (real, nat, nat, real, nat) trainer" where
  "ex_trainer cfg =
     \<lparr>config = cfg, model = 0, training = True, optimizer = 0, scheduler = 0,
      early_stopping = EarlyStopping 10, agg_sum = (take 3 (loss_fn cfg) = ''SPL''),
      train_loader = create_train_loader ex_collab cfg,
      val_loader = create_val_loader ex_collab cfg,
      n_windows = 2, start_epoch = 1, min_val_error = None,
      model_checkpoint = no_checkpoints, writer = []\<rparr>"

text \<open>
  The trainer a resumed run builds in this instance from a checkpoint of epoch 1 with best
  error 0 and nine bad epochs.
\<close>

definition ex_resumed :: "(real, nat, nat, real, nat) trainer" where
  "ex_resumed =
     (ex_trainer (ex_config\<lparr>resume_training := True\<rparr>))
       \<lparr>start_epoch := 2, min_val_error := Some 0,
        early_stopping := \<lparr>patience = 10, best = Some 0, num_bad_epochs = 9\<rparr>,
        model_checkpoint := ModelCheckpoint_save None True 0 9 1 0 0 0 no_checkpoints\<rparr>"

text \<open>The instance with a training stream of a single batch.\<close>

definition ex_single :: "(real, nat, nat, real, nat) collab" where
  "ex_single = ex_collab\<lparr>create_train_loader := (\<lambda>cfg epoch. [[ex_sample 4 1, ex_sample 6 1]])\<rparr>"

text \<open>The instance with a training stream of two batches in epoch 1 and one afterwards.\<close>

definition ex_shrinking :: "(real, nat, nat, real, nat) collab" where
  "ex_shrinking =
     ex_collab\<lparr>create_train_loader :=
       (\<lambda>cfg epoch. if epoch = 1 then [[ex_sample 4 1], [ex_sample 6 1]] else [[ex_sample 4 1]])\<rparr>"

text \<open>
  The instance with three folds and two epochs, resumed from fold 2, for which a
  checkpoint of epoch 1 is stored.
\<close>

definition ex_kfold_config :: "nat config" where
  "ex_kfold_config =
     ex_config\<lparr>k_fold := True, resume_training := True, resume_from_fold := 2, num_epochs := 2\<rparr>"

definition ex_fold_checkpoints :: "(real, nat, nat) checkpoints" where
  "ex_fold_checkpoints = ModelCheckpoint_save (Some 2) True 1 0 1 0 0 0 no_checkpoints"

text \<open>
  The sliding-window example: a batch of window indices 0, 1, 2, 0, 1, 2 whose targets
  have 28 steps, and the instance with predictions of 28 rows of 9 channels.
\<close>

definition ex_sample_28 :: "real \<Rightarrow> int \<Rightarrow> real sample" where
  "ex_sample_28 t wid = \<lparr>smp_x = 1, smp_y = replicate 28 t, norm_factor = 1, ids_idx = 0,
                          loss_input0 = 1, loss_input1 = 1, window_id = wid\<rparr>"

definition ex_window_batch :: "real batch" where
  "ex_window_batch =
     [ex_sample_28 1 0, ex_sample_28 2 1, ex_sample_28 3 2,
      ex_sample_28 4 0, ex_sample_28 5 1, ex_sample_28 6 2]"

definition ex_collab_28 :: "(real, nat, nat, real, nat) collab" where
  "ex_collab_28 = ex_collab\<lparr>forward := (\<lambda>w mode xs i. replicate 28 (replicate 9 w))\<rparr>"

text \<open>A batch of the same window indices whose targets have one step.\<close>

definition ex_short_batch :: "real batch" where
  "ex_short_batch =
     [ex_sample 1 0, ex_sample 2 1, ex_sample 3 2, ex_sample 4 0, ex_sample 5 1, ex_sample 6 2]"

section \<open>Properties\<close>

subsection \<open>Early stopping\<close>

text \<open>
  While no error improves on the recorded best, the answer to the \<open>k\<close>-th further call
  says whether the counter has come to the patience bound.
\<close>

lemma step_answers_plateau:
  "best es = Some b \<Longrightarrow> \<forall>v \<in> set vs. \<not> v < b \<Longrightarrow>
   step_answers es vs = map (\<lambda>k. patience es \<le> num_bad_epochs es + k + 1) [0..<length vs]"
proof (induction vs arbitrary: es)
  case Nil
  then show ?case by simp
next
  case (Cons v vs)
  let ?es' = "es\<lparr>num_bad_epochs := num_bad_epochs es + 1\<rparr>"
  from Cons.prems have st: "EarlyStopping_step es v = (patience es \<le> num_bad_epochs es + 1, ?es')"
    by (simp add: EarlyStopping_step_def)
  have "step_answers ?es' vs =
        map (\<lambda>k. patience ?es' \<le> num_bad_epochs ?es' + k + 1) [0..<length vs]"
    using Cons.prems by (intro Cons.IH) simp_all
  then have tl: "step_answers ?es' vs =
        map (\<lambda>k. patience es \<le> num_bad_epochs es + Suc k + 1) [0..<length vs]"
    by simp
  have "[0..<length (v # vs)] = 0 # map Suc [0..<length vs]"
    by (simp add: upt_conv_Cons map_Suc_upt del: upt_Suc)
  then show ?case
    using st tl by (simp add: comp_def del: upt_Suc)
qed

text \<open>
  C4. The early-stopping step returns false and resets the counter of bad epochs to 0
  when no best error is recorded or the current error improves on it; otherwise it
  increments the counter and returns true exactly when the counter has reached the
  patience bound \<open>P\<close>. On a fresh monitor, a first error followed by \<open>P\<close> errors that do
  not improve on it is answered false on every call but the last, the \<open>P\<close>-th
  non-improving one, which is answered true.
\<close>

theorem early_stopping_step_patience:
  "(best es = None \<or> (\<exists>b. best es = Some b \<and> v < b) \<longrightarrow>
      EarlyStopping_step es v = (False, es\<lparr>best := Some v, num_bad_epochs := 0\<rparr>))
   \<and> (\<forall>b. best es = Some b \<and> \<not> v < b \<longrightarrow>
      EarlyStopping_step es v =
        (patience es \<le> num_bad_epochs es + 1, es\<lparr>num_bad_epochs := num_bad_epochs es + 1\<rparr>))
   \<and> (0 < P \<and> length vs = P \<and> (\<forall>u \<in> set vs. \<not> u < v0) \<longrightarrow>
      step_answers (EarlyStopping P) (v0 # vs) = replicate P False @ [True])"
proof (intro conjI impI allI)
  assume "best es = None \<or> (\<exists>b. best es = Some b \<and> v < b)"
  then show "EarlyStopping_step es v = (False, es\<lparr>best := Some v, num_bad_epochs := 0\<rparr>)"
    by (auto simp: EarlyStopping_step_def)
next
  fix b assume "best es = Some b \<and> \<not> v < b"
  then show "EarlyStopping_step es v =
        (patience es \<le> num_bad_epochs es + 1, es\<lparr>num_bad_epochs := num_bad_epochs es + 1\<rparr>)"
    by (simp add: EarlyStopping_step_def)
next
  assume h: "0 < P \<and> length vs = P \<and> (\<forall>u \<in> set vs. \<not> u < v0)"
  let ?es = "\<lparr>patience = P, best = Some v0, num_bad_epochs = 0\<rparr>"
  have first: "EarlyStopping_step (EarlyStopping P) v0 = (False, ?es)"
    by (simp add: EarlyStopping_step_def EarlyStopping_def)
  have "step_answers ?es vs = map (\<lambda>k. patience ?es \<le> num_bad_epochs ?es + k + 1) [0..<length vs]"
    using h by (intro step_answers_plateau[where b = v0]) simp_all
  then have "step_answers ?es vs = map (\<lambda>k. P \<le> k + 1) [0..<P]"
    using h by simp
  also have "\<dots> = replicate (P - 1) False @ [True]"
  proof -
    obtain n where n: "P = Suc n" using h by (cases P) auto
    have "map (\<lambda>k. Suc n \<le> k + 1) [0..<n] = map (\<lambda>k. False) [0..<n]"
      by (rule map_cong) auto
    then have "map (\<lambda>k. Suc n \<le> k + 1) [0..<n] = replicate n False"
      by (simp add: map_replicate_const)
    then show ?thesis using n by simp
  qed
  finally have "step_answers ?es vs = replicate (P - 1) False @ [True]" .
  then have "step_answers (EarlyStopping P) (v0 # vs) = False # replicate (P - 1) False @ [True]"
    using first by simp
  moreover have "False # replicate (P - 1) False = replicate P False"
    using h by (cases P) auto
  ultimately show "step_answers (EarlyStopping P) (v0 # vs) = replicate P False @ [True]"
    by simp
qed

theorem early_stopping_step_patience_witness:
  "step_answers (EarlyStopping 2) [1, 1, 2] = [False, False, True]
   \<and> EarlyStopping_step \<lparr>patience = 2, best = Some 1, num_bad_epochs = 1\<rparr> 3
       = (True, \<lparr>patience = 2, best = Some 1, num_bad_epochs = 2\<rparr>)
   \<and> EarlyStopping_step \<lparr>patience = 2, best = Some 1, num_bad_epochs = 1\<rparr> 0
       = (False, \<lparr>patience = 2, best = Some 0, num_bad_epochs = 0\<rparr>)"
  using early_stopping_step_patience
          [of "\<lparr>patience = 2, best = Some 1, num_bad_epochs = 1\<rparr>" 3 2 "[1, 2]" 1]
        early_stopping_step_patience
          [of "\<lparr>patience = 2, best = Some 1, num_bad_epochs = 1\<rparr>" 0 2 "[1, 2]" 1]
  by (simp add: numeral_2_eq_2)

subsection \<open>Evaluation of the instance\<close>

lemmas ex_defs = ex_collab_def ex_config_def no_checkpoints_def ex_trainer_def ex_sample_def
  ex_window_batch_def ex_resumed_def ex_single_def ex_kfold_config_def ex_fold_checkpoints_def
  ex_shrinking_def ex_sample_28_def ex_collab_28_def ex_short_batch_def

lemmas run_defs = Trainer_init_def train_def train_epoch_def Let_def remove_previous_logs_def
  glob_logs_def EarlyStopping_def EarlyStopping_step_def no_accum_def predict_def
  batch_loss_def masked_def concatenate_epoch_def np_concatenate_def channel_4_def
  get_val_loss_and_err_def train_loss_of_def loss_agg_def track_best_def
  ModelCheckpoint_save_def ModelCheckpoint_load_def upt_conv_Cons accumulate_batch_def

lemma ex_trainer_init:
  "resume_training cfg = False \<Longrightarrow> fold cfg = None \<Longrightarrow>
   Trainer_init ex_collab cfg no_checkpoints [] = Inr (ex_trainer cfg, [])"
  by (simp add: Trainer_init_def ex_trainer_def ex_collab_def Let_def remove_previous_logs_def
      glob_logs_def)

subsection \<open>Resumption from a checkpoint\<close>

text \<open>
  C8. When resumption is requested, constructing the trainer on a storage in which a
  checkpoint was saved at epoch \<open>E\<close> succeeds and restores the saved model parameters,
  optimizer state and scheduler state, starts at epoch \<open>E + 1\<close>, takes the saved best
  validation error as \<open>min_val_error\<close>, and installs the saved best error and the saved
  count of bad epochs in the early-stopping monitor.
\<close>

theorem resume_restores_saved_state:
  "resume_training cfg \<longrightarrow>
   (\<exists>T. Trainer_init C cfg
          (ModelCheckpoint_save (fold cfg) is_best best_error bad_epochs E m opt sch cp) logs
        = Inr (T, logs)
      \<and> start_epoch T = E + 1 \<and> min_val_error T = Some best_error
      \<and> model T = m \<and> optimizer T = opt \<and> scheduler T = sch
      \<and> best (early_stopping T) = Some best_error
      \<and> num_bad_epochs (early_stopping T) = bad_epochs
      \<and> patience (early_stopping T) = 10)"
  by (simp add: Trainer_init_def ModelCheckpoint_save_def ModelCheckpoint_load_def Let_def
      EarlyStopping_def)

theorem resume_restores_saved_state_witness:
  "\<exists>T. Trainer_init ex_collab (ex_config\<lparr>resume_training := True\<rparr>)
          (ModelCheckpoint_save None False 2 3 7 5 8 9 no_checkpoints) []
        = Inr (T, [])
      \<and> start_epoch T = 8 \<and> min_val_error T = Some 2
      \<and> model T = 5 \<and> optimizer T = 8 \<and> scheduler T = 9
      \<and> early_stopping T = \<lparr>patience = 10, best = Some 2, num_bad_epochs = 3\<rparr>"
  using resume_restores_saved_state
          [of "ex_config\<lparr>resume_training := True\<rparr>" ex_collab False 2 3 7 5 8 9 no_checkpoints "[]"]
  by (auto simp: ex_config_def)

text \<open>Resumption with no snapshot in the namespace of the fold is an error.\<close>

lemma resume_without_snapshot_fails:
  "resume_training cfg \<Longrightarrow> latest_snapshot cp (fold cfg) = None \<Longrightarrow>
   Trainer_init C cfg cp logs = Inl FileNotFoundError"
  by (simp add: Trainer_init_def ModelCheckpoint_load_def Let_def)

subsection \<open>Cleanup of previous logs\<close>

text \<open>With no fold, the cleanup never ends in the error of removing a directory.\<close>

lemma remove_logs_root_no_directory_error:
  "remove_logs_root names d \<noteq> Inl IsADirectoryError"
  by (induction names arbitrary: d) (auto split: sum.splits error.splits)

lemma remove_logs_root_removes:
  "distinct names \<Longrightarrow> set names \<subseteq> fst ` set d \<Longrightarrow>
   remove_logs_root names d = Inr (filter (\<lambda>e. fst e \<notin> set names) d)"
proof (induction names arbitrary: d)
  case Nil
  then show ?case by simp
next
  case (Cons f fs)
  let ?d' = "filter (\<lambda>e. fst e \<noteq> f) d"
  from Cons.prems have "f \<in> fst ` set d" by simp
  then obtain n where n: "map_of d f = Some n"
    by (metis domIff dom_map_of_conv_image_fst not_Some_eq)
  have step: "remove_logs_root (f # fs) d = remove_logs_root fs ?d'"
    using n by (cases n) (simp_all add: os_remove_def rmtree_def)
  have "set fs \<subseteq> fst ` set ?d'"
    using Cons.prems by force
  with Cons.IH[of ?d'] Cons.prems
  have "remove_logs_root fs ?d' = Inr (filter (\<lambda>e. fst e \<notin> set fs) ?d')" by simp
  also have "filter (\<lambda>e. fst e \<notin> set fs) ?d' = filter (\<lambda>e. fst e \<notin> set (f # fs)) d"
    by (auto intro: filter_cong)
  finally show ?case using step by simp
qed

text \<open>
  With no fold, a log directory whose entries have distinct names is emptied, whether
  the entries are files or directories.
\<close>

lemma remove_previous_logs_root_clears:
  "distinct (map fst logs) \<Longrightarrow> remove_previous_logs None logs = Inr []"
proof -
  assume d: "distinct (map fst logs)"
  have "distinct (glob_logs logs)" using d by (auto simp: glob_logs_def)
  moreover have s: "set (glob_logs logs) = fst ` set logs" by (auto simp: glob_logs_def)
  ultimately have "remove_logs_root (glob_logs logs) logs
                   = Inr (filter (\<lambda>e. fst e \<notin> set (glob_logs logs)) logs)"
    by (intro remove_logs_root_removes) simp_all
  also have "filter (\<lambda>e. fst e \<notin> set (glob_logs logs)) logs = []"
    unfolding s by (simp add: filter_empty_conv)
  finally show ?thesis by (simp add: remove_previous_logs_def)
qed

text \<open>
  C9. The recovery from the error of removing a directory as a file is claimed for the
  cleanup with and without a fold. With fold 1 and a directory among the entries of
  \<open>./logs/fold_1\<close>, the constructor of a trainer that is not resumed ends in that error,
  whatever the collaborators; the same entries directly under \<open>./logs\<close> are removed when
  no fold is active.
\<close>

theorem fold_log_cleanup_aborts_on_directory:
  "Trainer_init C (cfg\<lparr>resume_training := False, fold := Some 1\<rparr>) cp
     [(''fold_1'', Dir [(''events.0'', File), (''old_run'', Dir [])])] = Inl IsADirectoryError
   \<and> remove_previous_logs None [(''events.0'', File), (''old_run'', Dir [])] = Inr []"
  by (simp add: Trainer_init_def remove_previous_logs_def fold_dir_def glob_logs_def hidden_def
      os_remove_def rmtree_def Let_def)

subsection \<open>One epoch\<close>

text \<open>The validation pass returns the trainer it was given, switched to evaluation mode.\<close>

lemma get_val_loss_and_err_trainer:
  "get_val_loss_and_err C T e = Inr (r, T') \<Longrightarrow> T' = T\<lparr>training := False\<rparr>"
  by (auto simp: get_val_loss_and_err_def Let_def split: sum.splits prod.splits)

text \<open>What a completed epoch reports, in terms of the trainer it started from.\<close>

lemma train_epoch_outcome:
  assumes "train_epoch C T e = Inr (oc, T')"
  shows "oc_epoch oc = e"
    and "(oc_min_val_error oc, oc_is_best oc) = track_best (min_val_error T) (oc_val_error oc)"
    and "min_val_error T' = Some (oc_min_val_error oc)"
    and "oc_step oc = e * (length (train_loader T e) - 1)"
    and "oc_bad_epochs oc = num_bad_epochs (early_stopping T)"
    and "(oc_stop oc, early_stopping T') = EarlyStopping_step (early_stopping T) (oc_val_error oc)"
    and "writer T' = writer T @
           [(loss_fn (config T) @ ''/train'', oc_train_loss oc, oc_step oc),
            (loss_fn (config T) @ ''/val'', oc_val_loss oc, oc_step oc),
            (metric (config T) @ ''/train'', oc_train_error oc, oc_step oc),
            (metric (config T) @ ''/val'', oc_val_error oc, oc_step oc),
            (secondary_metric (config T) @ ''/train'', oc_train_error_2 oc, oc_step oc),
            (secondary_metric (config T) @ ''/val'', oc_val_error_2 oc, oc_step oc)]"
    and "\<exists>st a. train_batches C (sliding_window (config T)) (n_windows T)
                  True (optimizer T) (model T) no_accum (train_loader T e) = Inr (st, a)
           \<and> oc_losses oc = losses a \<and> epoch_preds a \<noteq> []
           \<and> oc_train_error oc = get_error C (concat (epoch_preds a)) (concat (epoch_ys a))
                 (concat (epoch_scales a)) (concat (epoch_ws a))
           \<and> model T' = snd st"
    and "oc_train_loss oc = train_loss_of T (oc_losses oc)"
    and "model_checkpoint T' =
           ModelCheckpoint_save (fold (config T)) (oc_is_best oc) (oc_min_val_error oc)
             (oc_bad_epochs oc) e (model T') (optimizer T') (scheduler T') (model_checkpoint T)"
    and "oc_checkpoints oc = model_checkpoint T'"
  using assms unfolding train_epoch_def Let_def concatenate_epoch_def np_concatenate_def
  by (auto split: sum.splits prod.splits if_splits dest!: get_val_loss_and_err_trainer
      simp: train_loss_of_def loss_agg_def)

text \<open>What an epoch leaves as it was.\<close>

lemma train_epoch_frame:
  assumes "train_epoch C T e = Inr (oc, T')"
  shows "config T' = config T" and "train_loader T' = train_loader T"
    and "val_loader T' = val_loader T" and "n_windows T' = n_windows T"
    and "agg_sum T' = agg_sum T" and "start_epoch T' = start_epoch T"
    and "training T' = False"
  using assms unfolding train_epoch_def Let_def
  by (auto split: sum.splits prod.splits dest!: get_val_loss_and_err_trainer)

subsection \<open>Tracking of the best validation error\<close>

lemma track_best_Min:
  "track_best mv v = (Min (insert v (set_option mv)), \<forall>u \<in> set_option mv. v < u)"
  by (cases mv) (auto simp: track_best_def min_def)

text \<open>A loop over at least one epoch either stops after the first or goes on.\<close>

lemma epoch_loop_cases:
  assumes "epoch_loop C T (e # es) = Inr (ocs, T')"
  obtains oc where "train_epoch C T e = Inr (oc, T')" "oc_stop oc" "ocs = [oc]"
  | oc T1 ocs' where "train_epoch C T e = Inr (oc, T1)" "\<not> oc_stop oc"
      "epoch_loop C T1 es = Inr (ocs', T')" "ocs = oc # ocs'"
  using assms by (auto split: sum.splits prod.splits if_splits)

text \<open>The minimum of a set may stand for the set in a later minimum or lower bound.\<close>

lemma Min_insert_Min:
  fixes A S :: "real set"
  assumes "finite A" "A \<noteq> {}" "finite S" "S \<noteq> {}"
  shows "Min (insert (Min A) S) = Min (A \<union> S)"
proof -
  have "Min (insert (Min A) S) = min (Min A) (Min S)" using assms by simp
  also have "\<dots> = Min (A \<union> S)" using assms by (simp add: Min_Un)
  finally show ?thesis .
qed

lemma less_insert_Min:
  fixes A S :: "real set"
  assumes "finite A" "A \<noteq> {}"
  shows "(\<forall>v \<in> insert (Min A) S. x < v) = (\<forall>v \<in> A \<union> S. x < v)"
  using assms by auto

text \<open>
  The invariant of the loop: the error handed to \<open>save\<close> is the least of the error the
  loop started with and the errors seen so far, and \<open>is_best\<close> says that the error of the
  epoch is below all of them.
\<close>

lemma epoch_loop_best:
  "epoch_loop C T es = Inr (ocs, T') \<Longrightarrow> N < length ocs \<Longrightarrow>
   oc_min_val_error (ocs ! N)
     = Min (set_option (min_val_error T) \<union> set (take (Suc N) (map oc_val_error ocs)))
   \<and> oc_is_best (ocs ! N)
     = (\<forall>v \<in> set_option (min_val_error T) \<union> set (take N (map oc_val_error ocs)).
          oc_val_error (ocs ! N) < v)"
proof (induction es arbitrary: T ocs N)
  case Nil
  then show ?case by simp
next
  case (Cons e es)
  from Cons.prems(1) show ?case
  proof (cases rule: epoch_loop_cases)
    case (1 oc)
    with Cons.prems(2) have "N = 0" by simp
    moreover have "track_best (min_val_error T) (oc_val_error oc)
                   = (oc_min_val_error oc, oc_is_best oc)"
      using train_epoch_outcome(2)[OF 1(1)] by simp
    ultimately show ?thesis
      using 1(3) by (simp add: track_best_Min Un_commute)
  next
    case (2 oc T1 ocs')
    define A where "A = insert (oc_val_error oc) (set_option (min_val_error T))"
    have finA: "finite A" "A \<noteq> {}" by (simp_all add: A_def)
    have "track_best (min_val_error T) (oc_val_error oc) = (oc_min_val_error oc, oc_is_best oc)"
      using train_epoch_outcome(2)[OF 2(1)] by simp
    then have tb: "oc_min_val_error oc = Min A"
             "oc_is_best oc = (\<forall>u \<in> set_option (min_val_error T). oc_val_error oc < u)"
      by (simp_all add: track_best_Min A_def)
    have m1: "min_val_error T1 = Some (Min A)"
      using train_epoch_outcome(3)[OF 2(1)] tb by simp
    show ?thesis
    proof (cases N)
      case 0
      have "set_option (min_val_error T) \<union> {oc_val_error oc} = A" by (auto simp: A_def)
      with 0 tb 2(4) show ?thesis by simp
    next
      case (Suc n)
      with Cons.prems(2) 2(4) have n: "n < length ocs'" by simp
      define S where "S = set (take (Suc n) (map oc_val_error ocs'))"
      define S' where "S' = set (take n (map oc_val_error ocs'))"
      have "ocs' \<noteq> []" using n by auto
      then have finS: "finite S" "S \<noteq> {}" by (simp_all add: S_def)
      from Cons.IH[OF 2(3) n]
      have ih: "oc_min_val_error (ocs' ! n) = Min (insert (Min A) S)"
               "oc_is_best (ocs' ! n) = (\<forall>v \<in> insert (Min A) S'. oc_val_error (ocs' ! n) < v)"
        unfolding m1 S_def S'_def by simp_all
      have a: "oc_min_val_error (ocs' ! n) = Min (A \<union> S)"
        using ih(1) Min_insert_Min[OF finA finS] by simp
      have b: "oc_is_best (ocs' ! n) = (\<forall>v \<in> A \<union> S'. oc_val_error (ocs' ! n) < v)"
        using ih(2) less_insert_Min[OF finA] by simp
      have eq1: "set_option (min_val_error T) \<union> set (take (Suc N) (map oc_val_error ocs)) = A \<union> S"
        unfolding Suc 2(4) A_def S_def by auto
      have eq2: "set_option (min_val_error T) \<union> set (take N (map oc_val_error ocs)) = A \<union> S'"
        unfolding Suc 2(4) A_def S'_def by auto
      have nth: "ocs ! N = ocs' ! n" unfolding Suc 2(4) by simp
      show ?thesis
        unfolding eq1 eq2 nth using a b by blast
    qed
  qed
qed

lemma epoch_loop_last_best:
  "epoch_loop C T es = Inr (ocs, T') \<Longrightarrow> ocs \<noteq> [] \<Longrightarrow>
   min_val_error T' = Some (oc_min_val_error (last ocs))"
proof (induction es arbitrary: T ocs)
  case Nil
  then show ?case by simp
next
  case (Cons e es)
  from Cons.prems(1) show ?case
  proof (cases rule: epoch_loop_cases)
    case (1 oc)
    then show ?thesis using train_epoch_outcome(3)[OF 1(1)] by simp
  next
    case (2 oc T1 ocs')
    show ?thesis
    proof (cases "ocs' = []")
      case True
      have "T' = T1"
      proof (cases es)
        case Nil
        with 2(3) show ?thesis by simp
      next
        case (Cons e' es')
        from 2(3)[unfolded Cons] True show ?thesis
          by (cases rule: epoch_loop_cases) simp_all
      qed
      then show ?thesis using True 2(4) train_epoch_outcome(3)[OF 2(1)] by simp
    next
      case False
      then show ?thesis using Cons.IH[OF 2(3)] 2(4) by simp
    qed
  qed
qed

text \<open>The epochs that were run are an initial segment of the range of the loop.\<close>

lemma epoch_loop_epochs:
  "epoch_loop C T es = Inr (ocs, T') \<Longrightarrow> map oc_epoch ocs = take (length ocs) es"
proof (induction es arbitrary: T ocs)
  case Nil
  then show ?case by simp
next
  case (Cons e es)
  from Cons.prems(1) show ?case
  proof (cases rule: epoch_loop_cases)
    case (1 oc)
    then show ?thesis using train_epoch_outcome(1)[OF 1(1)] by simp
  next
    case (2 oc T1 ocs')
    then show ?thesis using train_epoch_outcome(1)[OF 2(1)] Cons.IH[OF 2(3)] by simp
  qed
qed

lemma epoch_loop_length:
  "epoch_loop C T es = Inr (ocs, T') \<Longrightarrow> length ocs \<le> length es"
proof -
  assume "epoch_loop C T es = Inr (ocs, T')"
  then have "length (map oc_epoch ocs) = length (take (length ocs) es)"
    by (simp only: epoch_loop_epochs)
  then show ?thesis by simp
qed

lemma train_epochs:
  assumes "train C T = Inr (ocs, T')" and "N < length ocs"
  shows "oc_epoch (ocs ! N) = start_epoch T + N"
proof -
  let ?es = "[start_epoch T ..< num_epochs (config T) + 1]"
  from assms(1) have l: "epoch_loop C T ?es = Inr (ocs, T')" by (simp only: train_def)
  have len: "N < length ?es" using epoch_loop_length[OF l] assms(2) by linarith
  have "oc_epoch (ocs ! N) = map oc_epoch ocs ! N" using assms(2) by simp
  also have "\<dots> = take (length ocs) ?es ! N" by (simp only: epoch_loop_epochs[OF l])
  also have "\<dots> = ?es ! N" using assms(2) by simp
  also have "\<dots> = start_epoch T + N" using len by (simp only: nth_upt length_upt)
  finally show ?thesis .
qed

text \<open>
  Every epoch that was run called \<open>save\<close> once, with the \<open>is_best\<close>, the best error, the
  count of bad epochs and the number of that epoch, on the storage the epoch before it
  had left.
\<close>

lemma epoch_loop_saves:
  "epoch_loop C T es = Inr (ocs, T') \<Longrightarrow> N < length ocs \<Longrightarrow>
   \<exists>m opt sch. oc_checkpoints (ocs ! N)
     = ModelCheckpoint_save (fold (config T)) (oc_is_best (ocs ! N))
         (oc_min_val_error (ocs ! N)) (oc_bad_epochs (ocs ! N)) (oc_epoch (ocs ! N)) m opt sch
         (if N = 0 then model_checkpoint T else oc_checkpoints (ocs ! (N - 1)))"
proof (induction es arbitrary: T ocs N)
  case Nil
  then show ?case by simp
next
  case (Cons e es)
  from Cons.prems(1) show ?case
  proof (cases rule: epoch_loop_cases)
    case (1 oc)
    with Cons.prems(2) have "N = 0" by simp
    then show ?thesis
      using 1(3) train_epoch_outcome(1,10,11)[OF 1(1)] by auto
  next
    case (2 oc T1 ocs')
    show ?thesis
    proof (cases N)
      case 0
      then show ?thesis
        using 2(4) train_epoch_outcome(1,10,11)[OF 2(1)] by auto
    next
      case (Suc n)
      with Cons.prems(2) 2(4) have n: "n < length ocs'" by simp
      have prev: "(if n = 0 then model_checkpoint T1 else oc_checkpoints (ocs' ! (n - 1)))
                  = oc_checkpoints (ocs ! (N - 1))"
        using Suc 2(4) train_epoch_outcome(11)[OF 2(1)] by (cases n) simp_all
      from Cons.IH[OF 2(3) n] show ?thesis
        unfolding prev train_epoch_frame(1)[OF 2(1)] using Suc 2(4) by simp
    qed
  qed
qed

text \<open>
  C1. In every run of the epoch loop, the \<open>N\<close>-th completed epoch is epoch
  \<open>start_epoch + N\<close> (counting from 0), the best validation error tracked after it is
  the minimum of the validation errors observed in the completed epochs, and \<open>is_best\<close> is
  true in exactly the epochs whose validation error is strictly lower than all errors
  observed before; the first observed error always counts as best. These are the
  \<open>is_best\<close> and the best error of the call of \<open>save\<close> of that epoch: the latest
  snapshot it leaves holds that epoch and that best error, and the best snapshot is
  overwritten with it exactly when \<open>is_best\<close> is true. A run that is not resumed starts
  with no best error; a resumed run starts with the restored one, which then stands for
  the errors of the epochs before the resumption. At the end of the run \<open>min_val_error\<close>
  is the error handed to the last \<open>save\<close>. Validation errors are real numbers: an error
  that is not a number (NaN) is outside the statement.
\<close>

theorem best_error_is_running_minimum:
  "train C T = Inr (ocs, T') \<Longrightarrow> N < length ocs \<Longrightarrow>
   oc_epoch (ocs ! N) = start_epoch T + N
   \<and> oc_min_val_error (ocs ! N)
       = Min (set_option (min_val_error T) \<union> set (take (Suc N) (map oc_val_error ocs)))
   \<and> oc_is_best (ocs ! N)
       = (\<forall>v \<in> set_option (min_val_error T) \<union> set (take N (map oc_val_error ocs)).
            oc_val_error (ocs ! N) < v)
   \<and> min_val_error T' = Some (oc_min_val_error (last ocs))
   \<and> (\<exists>m opt sch. oc_checkpoints (ocs ! N)
         = ModelCheckpoint_save (fold (config T)) (oc_is_best (ocs ! N))
             (oc_min_val_error (ocs ! N)) (oc_bad_epochs (ocs ! N)) (oc_epoch (ocs ! N))
             m opt sch
             (if N = 0 then model_checkpoint T else oc_checkpoints (ocs ! (N - 1))))
   \<and> (\<exists>sn. latest_snapshot (oc_checkpoints (ocs ! N)) (fold (config T)) = Some sn
         \<and> snap_epoch sn = start_epoch T + N
         \<and> snap_best_error sn = oc_min_val_error (ocs ! N)
         \<and> best_snapshot (oc_checkpoints (ocs ! N)) (fold (config T))
             = (if oc_is_best (ocs ! N) then Some sn
                else best_snapshot
                       (if N = 0 then model_checkpoint T else oc_checkpoints (ocs ! (N - 1)))
                       (fold (config T))))"
proof -
  assume r: "train C T = Inr (ocs, T')" and n: "N < length ocs"
  let ?es = "[start_epoch T ..< num_epochs (config T) + 1]"
  from r have l: "epoch_loop C T ?es = Inr (ocs, T')" by (simp only: train_def)
  have ne: "ocs \<noteq> []" using n by auto
  note ep = train_epochs[OF r n]
  from epoch_loop_saves[OF l n] obtain m opt sch where
    sv: "oc_checkpoints (ocs ! N)
         = ModelCheckpoint_save (fold (config T)) (oc_is_best (ocs ! N))
             (oc_min_val_error (ocs ! N)) (oc_bad_epochs (ocs ! N)) (oc_epoch (ocs ! N))
             m opt sch
             (if N = 0 then model_checkpoint T else oc_checkpoints (ocs ! (N - 1)))"
    by blast
  have snap: "\<exists>sn. latest_snapshot (oc_checkpoints (ocs ! N)) (fold (config T)) = Some sn
         \<and> snap_epoch sn = start_epoch T + N
         \<and> snap_best_error sn = oc_min_val_error (ocs ! N)
         \<and> best_snapshot (oc_checkpoints (ocs ! N)) (fold (config T))
             = (if oc_is_best (ocs ! N) then Some sn
                else best_snapshot
                       (if N = 0 then model_checkpoint T else oc_checkpoints (ocs ! (N - 1)))
                       (fold (config T)))"
    unfolding sv ep by (simp add: ModelCheckpoint_save_def Let_def)
  from sv have call: "\<exists>m opt sch. oc_checkpoints (ocs ! N)
         = ModelCheckpoint_save (fold (config T)) (oc_is_best (ocs ! N))
             (oc_min_val_error (ocs ! N)) (oc_bad_epochs (ocs ! N)) (oc_epoch (ocs ! N))
             m opt sch
             (if N = 0 then model_checkpoint T else oc_checkpoints (ocs ! (N - 1)))"
    by blast
  from epoch_loop_best[OF l n] epoch_loop_last_best[OF l ne] ep call snap
  show ?thesis by (intro conjI) simp_all
qed

text \<open>
  The instance, without sliding windows, runs its three epochs, with validation errors 2,
  0 and 2.
\<close>

lemma ex_train_run:
  "\<exists>ocs T'. train ex_collab (ex_trainer ex_config) = Inr (ocs, T')
     \<and> map oc_val_error ocs = [2, 0, 2]"
  by (simp add: run_defs ex_defs)

theorem best_error_is_running_minimum_witness:
  "\<exists>ocs T'. train ex_collab (ex_trainer ex_config) = Inr (ocs, T')
     \<and> map oc_val_error ocs = [2, 0, 2]
     \<and> map oc_min_val_error ocs = [2, 0, 0]
     \<and> map oc_is_best ocs = [True, True, False]
     \<and> map oc_epoch ocs = [1, 2, 3]
     \<and> min_val_error T' = Some 0
     \<and> \<not> sliding_window ex_config"
proof -
  obtain ocs T' where r: "train ex_collab (ex_trainer ex_config) = Inr (ocs, T')"
    and v: "map oc_val_error ocs = [2, 0, 2]"
    using ex_train_run by (elim exE conjE)
  from v have len: "length ocs = 3" by (metis length_map length_Cons list.size(3) numeral_3_eq_3)
  then obtain a b c where ocs: "ocs = [a, b, c]"
    by (cases ocs; cases "tl ocs"; cases "tl (tl ocs)") auto
  have T: "min_val_error (ex_trainer ex_config) = None" "start_epoch (ex_trainer ex_config) = 1"
    by (simp_all add: ex_trainer_def)
  have "0 < length ocs" "1 < length ocs" "2 < length ocs" using len by simp_all
  note f = best_error_is_running_minimum[OF r \<open>0 < length ocs\<close>]
           best_error_is_running_minimum[OF r \<open>1 < length ocs\<close>]
           best_error_is_running_minimum[OF r \<open>2 < length ocs\<close>]
  have sw: "\<not> sliding_window ex_config" by (simp add: ex_config_def)
  from f v sw show ?thesis
    unfolding T ocs using r by (auto simp: ocs)
qed

subsection \<open>Early termination of the loop\<close>

text \<open>An epoch at which the monitor answered true is the last one that was run.\<close>

lemma epoch_loop_stop_last:
  "epoch_loop C T es = Inr (ocs, T') \<Longrightarrow> k < length ocs \<Longrightarrow> oc_stop (ocs ! k) \<Longrightarrow>
   Suc k = length ocs"
proof (induction es arbitrary: T ocs k)
  case Nil
  then show ?case by simp
next
  case (Cons e es)
  from Cons.prems(1) show ?case
  proof (cases rule: epoch_loop_cases)
    case (1 oc)
    with Cons.prems(2) show ?thesis by simp
  next
    case (2 oc T1 ocs')
    show ?thesis
    proof (cases k)
      case 0
      with Cons.prems(3) 2 show ?thesis by simp
    next
      case (Suc j)
      with Cons.prems 2(4) have "j < length ocs'" "oc_stop (ocs' ! j)" by simp_all
      from Cons.IH[OF 2(3) this] Suc 2(4) show ?thesis by simp
    qed
  qed
qed

text \<open>
  The loop gives the same outcomes and leaves the same trainer as the loop over the
  epochs it ran only: the epochs after them contribute nothing.
\<close>

lemma epoch_loop_take:
  "epoch_loop C T es = Inr (ocs, T') \<Longrightarrow> epoch_loop C T (take (length ocs) es) = Inr (ocs, T')"
proof (induction es arbitrary: T ocs)
  case Nil
  then show ?case by simp
next
  case (Cons e es)
  from Cons.prems(1) show ?case
  proof (cases rule: epoch_loop_cases)
    case (1 oc)
    then show ?thesis by simp
  next
    case (2 oc T1 ocs')
    from Cons.IH[OF 2(3)] 2 show ?thesis by simp
  qed
qed

text \<open>Six scalars are logged per epoch that was run, and no others.\<close>

lemma epoch_loop_writer:
  "epoch_loop C T es = Inr (ocs, T') \<Longrightarrow> length (writer T') = length (writer T) + 6 * length ocs"
proof (induction es arbitrary: T ocs)
  case Nil
  then show ?case by simp
next
  case (Cons e es)
  from Cons.prems(1) show ?case
  proof (cases rule: epoch_loop_cases)
    case (1 oc)
    then show ?thesis using train_epoch_outcome(7)[OF 1(1)] by simp
  next
    case (2 oc T1 ocs')
    from Cons.IH[OF 2(3)] 2(4) train_epoch_outcome(7)[OF 2(1)] show ?thesis by simp
  qed
qed

text \<open>
  C5. If the early-stopping monitor signals termination at the end of an epoch, that
  epoch is the last one of the run: the outcomes and the final trainer (parameters,
  optimizer, checkpoints, log) are those of the loop over the epochs up to it, and the
  log holds six entries per epoch up to it, so no later epoch of the fold has a forward
  pass, an optimizer step, a checkpoint save or a log write.
\<close>

theorem early_stop_halts_loop:
  "train C T = Inr (ocs, T') \<Longrightarrow> k < length ocs \<Longrightarrow> oc_stop (ocs ! k) \<Longrightarrow>
   Suc k = length ocs
   \<and> oc_epoch (ocs ! k) = start_epoch T + k
   \<and> epoch_loop C T [start_epoch T ..< start_epoch T + Suc k] = Inr (ocs, T')
   \<and> length (writer T') = length (writer T) + 6 * Suc k"
proof -
  assume r: "train C T = Inr (ocs, T')" and k: "k < length ocs" and st: "oc_stop (ocs ! k)"
  let ?es = "[start_epoch T ..< num_epochs (config T) + 1]"
  from r have l: "epoch_loop C T ?es = Inr (ocs, T')" by (simp only: train_def)
  have last: "Suc k = length ocs" by (rule epoch_loop_stop_last[OF l k st])
  have "length ocs \<le> num_epochs (config T) + 1 - start_epoch T"
    using epoch_loop_length[OF l] by (simp only: length_upt)
  then have "start_epoch T + Suc k \<le> num_epochs (config T) + 1"
    using last by linarith
  then have "take (length ocs) ?es = [start_epoch T ..< start_epoch T + Suc k]"
    unfolding last[symmetric] by (rule take_upt)
  with epoch_loop_take[OF l]
  have "epoch_loop C T [start_epoch T ..< start_epoch T + Suc k] = Inr (ocs, T')" by simp
  moreover have "length (writer T') = length (writer T) + 6 * Suc k"
    using epoch_loop_writer[OF l] last by simp
  ultimately show ?thesis using last train_epochs[OF r k] by blast
qed

text \<open>
  The resumed instance, without sliding windows, stops after its first epoch, epoch 2 of 3.
\<close>

lemma ex_resumed_run:
  "\<exists>ocs T'. train ex_collab ex_resumed = Inr (ocs, T')
     \<and> map oc_stop ocs = [True] \<and> map oc_val_error ocs = [2]"
  by (simp add: run_defs ex_defs)

theorem early_stop_halts_loop_witness:
  "\<exists>ocs T'. train ex_collab ex_resumed = Inr (ocs, T')
     \<and> map oc_stop ocs = [True] \<and> map oc_epoch ocs = [2]
     \<and> num_epochs (config ex_resumed) = 3 \<and> \<not> sliding_window (config ex_resumed)
     \<and> epoch_loop ex_collab ex_resumed [2] = Inr (ocs, T')
     \<and> length (writer T') = 6"
proof -
  obtain ocs T' where r: "train ex_collab ex_resumed = Inr (ocs, T')"
    and s: "map oc_stop ocs = [True]"
    using ex_resumed_run by (elim exE conjE)
  from s obtain a where ocs: "ocs = [a]" by auto
  have k: "0 < length ocs" "oc_stop (ocs ! 0)" using s ocs by simp_all
  have T: "start_epoch ex_resumed = 2" "writer ex_resumed = []"
          "num_epochs (config ex_resumed) = 3" "\<not> sliding_window (config ex_resumed)"
    by (simp_all add: ex_defs)
  from early_stop_halts_loop[OF r k] show ?thesis
    unfolding T(1,2) using r s T(3,4) by (auto simp: ocs)
qed

subsection \<open>The reported training loss\<close>

text \<open>\<open>loss_fn[:3] == 'SPL'\<close> says that the name of the loss starts with \<open>SPL\<close>.\<close>

lemma take_3_SPL_prefix: "(take 3 s = ''SPL'') = prefix ''SPL'' s"
proof
  assume "take 3 s = ''SPL''"
  then have "s = ''SPL'' @ drop 3 s" by (metis append_take_drop_id)
  then show "prefix ''SPL'' s" by (metis prefixI)
next
  assume "prefix ''SPL'' s"
  then obtain zs where "s = ''SPL'' @ zs" by (auto simp: prefix_def)
  then show "take 3 s = ''SPL''" by simp
qed

text \<open>A pass appends one loss per batch; an epoch that completes had a batch.\<close>

lemma train_batches_losses_length:
  "train_batches C sw nw mode opt w a bs = Inr (st, a') \<Longrightarrow>
   length (losses a') = length (losses a) + length bs"
proof (induction bs arbitrary: opt w a)
  case Nil
  then show ?case by simp
next
  case (Cons b bs)
  from Cons.prems obtain a1 where
    a1: "accumulate_batch sw nw b (predict C w mode b) a = Inr a1"
    and rest: "train_batches C sw nw mode (fst (update C opt w b)) (snd (update C opt w b))
                 (a1\<lparr>losses := losses a1 @ [batch_loss C (predict C w mode b) b]\<rparr>) bs
               = Inr (st, a')"
    by (auto simp: Let_def split: sum.splits prod.splits)
  have "losses a1 = losses a"
    using a1 by (auto simp: accumulate_batch_def Let_def split: if_splits sum.splits)
  with Cons.IH[OF rest] show ?case by simp
qed

lemma train_epoch_has_batches:
  assumes "train_epoch C T e = Inr (oc, T')"
  shows "train_loader T e \<noteq> []"
proof
  assume "train_loader T e = []"
  with train_epoch_outcome(8)[OF assms] show False
    by (auto simp: no_accum_def)
qed

lemma train_epoch_losses:
  assumes "train_epoch C T e = Inr (oc, T')"
  shows "length (oc_losses oc) = length (train_loader T e)" and "oc_losses oc \<noteq> []"
proof -
  from train_epoch_outcome(8)[OF assms] obtain st a where
    "train_batches C (sliding_window (config T)) (n_windows T) True (optimizer T) (model T)
       no_accum (train_loader T e) = Inr (st, a)" "oc_losses oc = losses a"
    by blast
  then show l: "length (oc_losses oc) = length (train_loader T e)"
    using train_batches_losses_length by (fastforce simp: no_accum_def)
  from train_epoch_has_batches[OF assms] l show "oc_losses oc \<noteq> []" by auto
qed

text \<open>The reported loss depends on the trainer through \<open>agg_sum\<close> and \<open>n_windows\<close> only.\<close>

lemma train_loss_of_cong:
  "agg_sum T1 = agg_sum T \<Longrightarrow> n_windows T1 = n_windows T \<Longrightarrow>
   train_loss_of T1 ls = train_loss_of T ls"
  by (simp add: train_loss_of_def loss_agg_def)

lemma epoch_loop_train_loss:
  "epoch_loop C T es = Inr (ocs, T') \<Longrightarrow> oc \<in> set ocs \<Longrightarrow>
   oc_losses oc \<noteq> [] \<and> oc_train_loss oc = train_loss_of T (oc_losses oc)"
proof (induction es arbitrary: T ocs)
  case Nil
  then show ?case by simp
next
  case (Cons e es)
  from Cons.prems(1) show ?case
  proof (cases rule: epoch_loop_cases)
    case (1 oc1)
    with Cons.prems(2) have "oc = oc1" by simp
    then show ?thesis
      using train_epoch_losses(2)[OF 1(1)] train_epoch_outcome(9)[OF 1(1)] by simp
  next
    case (2 oc1 T1 ocs')
    show ?thesis
    proof (cases "oc = oc1")
      case True
      then show ?thesis
        using train_epoch_losses(2)[OF 2(1)] train_epoch_outcome(9)[OF 2(1)] by simp
    next
      case False
      with Cons.prems(2) 2(4) have "oc \<in> set ocs'" by simp
      from Cons.IH[OF 2(3) this]
      have "oc_losses oc \<noteq> []" "oc_train_loss oc = train_loss_of T1 (oc_losses oc)" by simp_all
      moreover have "train_loss_of T1 (oc_losses oc) = train_loss_of T (oc_losses oc)"
        using train_epoch_frame(4,5)[OF 2(1)] by (rule train_loss_of_cong[rotated])
      ultimately show ?thesis by simp
    qed
  qed
qed

text \<open>What the constructor fixes.\<close>

lemma Trainer_init_fields:
  assumes "Trainer_init C cfg cp logs = Inr (T, logs')"
  shows "config T = cfg" and "agg_sum T = (take 3 (loss_fn cfg) = ''SPL'')"
    and "n_windows T = data_n_windows C cfg" and "model_checkpoint T = cp"
    and "writer T = []" and "train_loader T = create_train_loader C cfg"
    and "val_loader T = create_val_loader C cfg"
    and "\<not> resume_training cfg \<Longrightarrow>
           start_epoch T = 1 \<and> min_val_error T = None \<and> early_stopping T = EarlyStopping 10
           \<and> model T = create_model C cfg
           \<and> optimizer T = create_optimizer C cfg (create_model C cfg)
           \<and> scheduler T = create_scheduler C (create_optimizer C cfg (create_model C cfg))"
  using assms unfolding Trainer_init_def Let_def
  by (auto split: if_splits sum.splits prod.splits)

text \<open>
  C3. In a run of a trainer built by the constructor, the training loss reported for an
  epoch is the mean of the losses of its batches when the name of the loss does not
  start with \<open>SPL\<close>, and their sum divided by \<open>n_windows\<close> when it does and
  \<open>n_windows\<close> is not 0; an epoch that completes has at least one batch. With batch
  losses 4 and 6 and two windows, the reported loss is 5 under either aggregation.
\<close>

theorem reported_training_loss:
  "Trainer_init C cfg cp logs = Inr (T, logs') \<Longrightarrow> train C T = Inr (ocs, T') \<Longrightarrow>
   oc \<in> set ocs \<Longrightarrow>
   oc_losses oc \<noteq> []
   \<and> (\<not> prefix ''SPL'' (loss_fn cfg) \<longrightarrow>
        oc_train_loss oc = sum_list (oc_losses oc) / real (length (oc_losses oc)))
   \<and> (prefix ''SPL'' (loss_fn cfg) \<and> data_n_windows C cfg \<noteq> 0 \<longrightarrow>
        oc_train_loss oc = sum_list (oc_losses oc) / real_of_int (data_n_windows C cfg))"
proof -
  assume i: "Trainer_init C cfg cp logs = Inr (T, logs')" and r: "train C T = Inr (ocs, T')"
    and oc: "oc \<in> set ocs"
  from r have l: "epoch_loop C T [start_epoch T ..< num_epochs (config T) + 1] = Inr (ocs, T')"
    by (simp only: train_def)
  have "oc_train_loss oc = train_loss_of T (oc_losses oc)" "oc_losses oc \<noteq> []"
    using epoch_loop_train_loss[OF l oc] by simp_all
  moreover have "train_loss_of T (oc_losses oc) =
       (if prefix ''SPL'' (loss_fn cfg)
        then sum_list (oc_losses oc) / real_of_int (data_n_windows C cfg)
        else sum_list (oc_losses oc) / real (length (oc_losses oc)))"
    unfolding train_loss_of_def loss_agg_def Trainer_init_fields(2,3)[OF i] take_3_SPL_prefix
    by simp
  ultimately show ?thesis by simp
qed

text \<open>
  The instance, without sliding windows, with a sum-style loss and with another: batch
  losses 4 and 6.
\<close>

lemma ex_loss_runs:
  "\<exists>ocs T'. train ex_collab (ex_trainer ex_config) = Inr (ocs, T')
      \<and> map oc_losses ocs = [[4, 6], [4, 6], [4, 6]]"
  "\<exists>ocs T'. train ex_collab (ex_trainer (ex_config\<lparr>loss_fn := ''pinball''\<rparr>)) = Inr (ocs, T')
      \<and> map oc_losses ocs = [[4, 6], [4, 6], [4, 6]]"
  by (simp_all add: run_defs ex_defs)

theorem reported_training_loss_witness:
  "(\<exists>ocs T'. train ex_collab (ex_trainer ex_config) = Inr (ocs, T')
      \<and> data_n_windows ex_collab ex_config = 2
      \<and> map oc_losses ocs = [[4, 6], [4, 6], [4, 6]] \<and> map oc_train_loss ocs = [5, 5, 5])
   \<and> (\<exists>ocs T'. train ex_collab (ex_trainer (ex_config\<lparr>loss_fn := ''pinball''\<rparr>)) = Inr (ocs, T')
      \<and> map oc_losses ocs = [[4, 6], [4, 6], [4, 6]] \<and> map oc_train_loss ocs = [5, 5, 5])"
proof
  let ?cfg = ex_config
  obtain ocs T' where r: "train ex_collab (ex_trainer ?cfg) = Inr (ocs, T')"
    and ls: "map oc_losses ocs = [[4, 6], [4, 6], [4, 6]]"
    using ex_loss_runs(1) by (elim exE conjE)
  have i: "Trainer_init ex_collab ?cfg no_checkpoints [] = Inr (ex_trainer ?cfg, [])"
    by (rule ex_trainer_init) (simp_all add: ex_config_def)
  have n: "0 < data_n_windows ex_collab ?cfg" "data_n_windows ex_collab ?cfg = 2"
    by (simp_all add: ex_collab_def)
  have p: "prefix ''SPL'' (loss_fn ?cfg)" by (simp add: ex_config_def)
  have "\<forall>oc \<in> set ocs. oc_losses oc = [4, 6]" using ls by (auto simp: map_eq_Cons_conv)
  then have "\<forall>oc \<in> set ocs. oc_train_loss oc = 5"
    using reported_training_loss[OF i r] p n(2) by auto
  moreover from ls obtain a b c where "ocs = [a, b, c]" by (auto simp: map_eq_Cons_conv)
  ultimately have "map oc_train_loss ocs = [5, 5, 5]" by simp
  with r ls n(2) show "\<exists>ocs T'. train ex_collab (ex_trainer ?cfg) = Inr (ocs, T')
      \<and> data_n_windows ex_collab ?cfg = 2
      \<and> map oc_losses ocs = [[4, 6], [4, 6], [4, 6]] \<and> map oc_train_loss ocs = [5, 5, 5]"
    by (intro exI[of _ ocs] exI[of _ T'] conjI)
next
  let ?cfg = "ex_config\<lparr>loss_fn := ''pinball''\<rparr>"
  obtain ocs T' where r: "train ex_collab (ex_trainer ?cfg) = Inr (ocs, T')"
    and ls: "map oc_losses ocs = [[4, 6], [4, 6], [4, 6]]"
    using ex_loss_runs(2) by (elim exE conjE)
  have i: "Trainer_init ex_collab ?cfg no_checkpoints [] = Inr (ex_trainer ?cfg, [])"
    by (rule ex_trainer_init) (simp_all add: ex_config_def)
  have n: "0 < data_n_windows ex_collab ?cfg"
    by (simp_all add: ex_collab_def)
  have p: "\<not> prefix ''SPL'' (loss_fn ?cfg)" by (simp add: ex_config_def)
  have "\<forall>oc \<in> set ocs. oc_losses oc = [4, 6]" using ls by (auto simp: map_eq_Cons_conv)
  then have "\<forall>oc \<in> set ocs. oc_train_loss oc = 5"
    using reported_training_loss[OF i r] p by auto
  moreover from ls obtain a b c where "ocs = [a, b, c]" by (auto simp: map_eq_Cons_conv)
  ultimately have "map oc_train_loss ocs = [5, 5, 5]" by simp
  with r ls show "\<exists>ocs T'. train ex_collab (ex_trainer ?cfg) = Inr (ocs, T')
      \<and> map oc_losses ocs = [[4, 6], [4, 6], [4, 6]] \<and> map oc_train_loss ocs = [5, 5, 5]"
    by (intro exI[of _ ocs] exI[of _ T'] conjI)
qed

subsection \<open>Steps of the scalar log\<close>

text \<open>
  The step of the six scalars of an epoch is the number of the epoch times the index of
  the last batch of its training stream.
\<close>

lemma epoch_loop_steps:
  "epoch_loop C T es = Inr (ocs, T') \<Longrightarrow> N < length ocs \<Longrightarrow>
   oc_step (ocs ! N) = oc_epoch (ocs ! N) * (length (train_loader T (oc_epoch (ocs ! N))) - 1)"
proof (induction es arbitrary: T ocs N)
  case Nil
  then show ?case by simp
next
  case (Cons e es)
  from Cons.prems(1) show ?case
  proof (cases rule: epoch_loop_cases)
    case (1 oc)
    with Cons.prems(2) have "N = 0" by simp
    then show ?thesis
      using 1(3) train_epoch_outcome(1,4)[OF 1(1)] by simp
  next
    case (2 oc T1 ocs')
    show ?thesis
    proof (cases N)
      case 0
      then show ?thesis using 2(4) train_epoch_outcome(1,4)[OF 2(1)] by simp
    next
      case (Suc n)
      with Cons.prems(2) 2(4) have n: "n < length ocs'" by simp
      from Cons.IH[OF 2(3) n] train_epoch_frame(2)[OF 2(1)] Suc 2(4)
      show ?thesis by simp
    qed
  qed
qed

lemma log_step_of_epoch:
  assumes "train C T = Inr (ocs, T')" and "N < length ocs"
  shows "oc_step (ocs ! N)
         = (start_epoch T + N) * (length (train_loader T (start_epoch T + N)) - 1)"
proof -
  from assms(1) have l: "epoch_loop C T [start_epoch T ..< num_epochs (config T) + 1] = Inr (ocs, T')"
    by (simp only: train_def)
  show ?thesis
    using epoch_loop_steps[OF l assms(2)] train_epochs[OF assms] by simp
qed

text \<open>When every epoch has the same number of batches, at least two, the steps increase.\<close>

lemma log_steps_increase_from_two_batches:
  assumes "train C T = Inr (ocs, T')" and "Suc N < length ocs"
    and "\<And>e. length (train_loader T e) = L" and "2 \<le> L"
  shows "oc_step (ocs ! N) < oc_step (ocs ! Suc N)"
proof -
  have "N < length ocs" using assms(2) by simp
  from log_step_of_epoch[OF assms(1) this] log_step_of_epoch[OF assms(1,2)]
  have "oc_step (ocs ! N) = (start_epoch T + N) * (L - 1)"
       "oc_step (ocs ! Suc N) = (start_epoch T + Suc N) * (L - 1)"
    by (simp_all only: assms(3))
  moreover have "0 < L - 1" using assms(4) by simp
  ultimately show ?thesis by simp
qed

text \<open>
  C10. The steps of the six series are claimed to increase from epoch to epoch within a
  fold. Without sliding windows and with a training stream of one batch, the index of the
  last batch is 0: the three epochs of the instance log all their eighteen scalars at
  step 0, so the steps do not increase strictly. With a stream of two batches in epoch 1
  and one batch afterwards, the steps are 1, 0 and 0, so they decrease.
\<close>

theorem single_batch_log_steps_collide:
  "\<not> sliding_window ex_config
   \<and> (\<exists>T ocs T'. Trainer_init ex_single ex_config no_checkpoints [] = Inr (T, [])
     \<and> train ex_single T = Inr (ocs, T')
     \<and> map oc_epoch ocs = [1, 2, 3]
     \<and> map oc_step ocs = [0, 0, 0]
     \<and> map (\<lambda>(tag, v, st). st) (writer T') = replicate 18 0)
   \<and> (\<exists>T ocs T'. Trainer_init ex_shrinking ex_config no_checkpoints [] = Inr (T, [])
     \<and> train ex_shrinking T = Inr (ocs, T')
     \<and> map oc_epoch ocs = [1, 2, 3]
     \<and> map oc_step ocs = [1, 0, 0])"
  by (simp add: run_defs ex_defs numeral_eq_Suc)

subsection \<open>Aggregation of the training pass\<close>

text \<open>The model gives one prediction per sample of the batch.\<close>

lemma length_predict: "length (predict C w mode b) = length b"
  by (simp add: predict_def)

text \<open>
  Indexing by the mask of the last window keeps the samples of the last window: for a
  field of the samples, and for a tensor aligned with the batch.
\<close>

lemma masked_map:
  "masked (map f b) (map P b) = map f (filter P b)"
  by (induction b) (simp_all add: masked_def)

lemma masked_zip:
  "length ps = length b \<Longrightarrow>
   masked ps (map P b) = map snd (filter (\<lambda>sp. P (fst sp)) (zip b ps))"
proof (induction b arbitrary: ps)
  case Nil
  then show ?case by (simp add: masked_def)
next
  case (Cons s b)
  then obtain p ps' where ps: "ps = p # ps'" "length ps' = length b"
    by (cases ps) auto
  from Cons.IH[OF ps(2)] show ?case
    unfolding ps by (simp add: masked_def)
qed

text \<open>\<open>torch.sum(mask) > 0\<close> says that some sample is kept.\<close>

lemma mask_count: "(filter (\<lambda>m. m) (map P b) = []) = (filter P b = [])"
  by (simp add: filter_map comp_def)

lemma spec_aggregated_True: "spec_aggregated True nw = (\<lambda>s. window_id s = nw - 1)"
  by (simp add: spec_aggregated_def fun_eq_iff)

lemma spec_aggregated_False: "spec_aggregated False nw = (\<lambda>s. True)"
  by (simp add: spec_aggregated_def fun_eq_iff)

text \<open>Rows of a reshape: a first row of the right length, rows that all are, the content.\<close>

lemma chunks_Nil: "chunks n [] = []"
  by (simp add: chunks.simps)

lemma chunks_row: "0 < n \<Longrightarrow> length r = n \<Longrightarrow> chunks n (r @ vs) = r # chunks n vs"
  by (subst chunks.simps) auto

lemma chunks_concat:
  "0 < n \<Longrightarrow> \<forall>r \<in> set rows. length r = n \<Longrightarrow> chunks n (concat rows) = rows"
  by (induction rows) (simp_all add: chunks_Nil chunks_row)

lemma concat_chunks: "concat (chunks n vs) = (if n = 0 then [] else vs)"
proof (induction n vs rule: chunks.induct)
  case (1 n vs)
  show ?case
  proof (cases "n = 0 \<or> vs = []")
    case True
    then show ?thesis by (subst chunks.simps) auto
  next
    case False
    with 1 have "concat (chunks n (drop n vs)) = drop n vs" by simp
    with False show ?thesis by (subst chunks.simps) simp
  qed
qed

lemma length_concat_rows:
  "\<forall>r \<in> set rows. length r = n \<Longrightarrow> length (concat rows) = n * length rows"
  by (induction rows) simp_all

lemma reshape_rows_content: "reshape_rows 28 vs = Inr rows \<Longrightarrow> concat rows = vs"
  by (auto simp: reshape_rows_def concat_chunks split: if_splits)

lemma reshape_rows_exact:
  "\<forall>r \<in> set rows. length r = 28 \<Longrightarrow> reshape_rows 28 (concat rows) = Inr rows"
proof -
  assume rows: "\<forall>r \<in> set rows. length r = 28"
  have "length (concat rows) mod 28 = 0" using length_concat_rows[OF rows] by simp
  moreover have "chunks 28 (concat rows) = rows" using rows by (simp add: chunks_concat)
  ultimately show ?thesis by (simp add: reshape_rows_def)
qed

lemma reshape_28_9_content: "reshape_28_9 vs = Inr ps \<Longrightarrow> concat (concat ps) = vs"
  by (auto simp: reshape_28_9_def concat_chunks split: if_splits)

lemma reshape_28_9_exact:
  assumes "list_all shape_28_9 ps"
  shows "reshape_28_9 (concat (concat ps)) = Inr ps"
proof -
  from assms have rows: "\<forall>row \<in> set (concat ps). length row = 9"
    and blocks: "\<forall>p \<in> set ps. length p = 28"
    by (auto simp: shape_28_9_def list_all_iff)
  have "length (concat (concat ps)) = 9 * (28 * length ps)"
    using length_concat_rows[OF rows] length_concat_rows[OF blocks] by simp
  then have "length (concat (concat ps)) mod (28 * 9) = 0" by simp
  moreover have "chunks 9 (concat (concat ps)) = concat ps"
    using rows by (simp add: chunks_concat)
  moreover have "chunks 28 (concat ps) = ps"
    using blocks by (simp add: chunks_concat)
  ultimately show ?thesis by (simp add: reshape_28_9_def)
qed

text \<open>What a batch appends, in sliding-window mode and without it.\<close>

lemma accumulate_batch_sliding:
  "length preds = length b \<Longrightarrow>
   accumulate_batch True nw b preds a =
     (if filter (spec_aggregated True nw) b = [] then Inr a
      else (case reshape_rows 28 (concat (map smp_y (filter (spec_aggregated True nw) b))) of
              Inl e \<Rightarrow> Inl e
            | Inr ys \<Rightarrow>
           (case reshape_28_9 (concat (concat (selected True nw b preds))) of
              Inl e \<Rightarrow> Inl e
            | Inr ps \<Rightarrow>
                Inr (a\<lparr>epoch_ys := epoch_ys a @ [ys],
                       epoch_scales := epoch_scales a
                          @ [map loss_input0 (filter (spec_aggregated True nw) b)],
                       epoch_ws := epoch_ws a
                          @ [map loss_input1 (filter (spec_aggregated True nw) b)],
                       epoch_preds := epoch_preds a @ [ps]\<rparr>))))"
  unfolding spec_aggregated_True selected_def accumulate_batch_def
  by (simp add: Let_def mask_count masked_map masked_zip split: sum.splits)

lemma accumulate_batch_plain:
  "accumulate_batch False nw b preds a =
     Inr (a\<lparr>epoch_ys := epoch_ys a @ [map smp_y b],
            epoch_scales := epoch_scales a @ [map loss_input0 b],
            epoch_ws := epoch_ws a @ [map loss_input1 b],
            epoch_preds := epoch_preds a @ [preds]\<rparr>)"
  by (simp add: accumulate_batch_def)

lemma selected_none:
  "filter (spec_aggregated sw nw) b = [] \<Longrightarrow> selected sw nw b vs = []"
  by (auto simp: selected_def filter_empty_conv dest: set_zip_leftD)

lemma selected_all:
  "length vs = length b \<Longrightarrow> selected False nw b vs = vs"
  by (simp add: selected_def spec_aggregated_def)

lemma filter_spec_aggregated_False:
  "filter (spec_aggregated False nw) ss = ss"
  by (simp add: spec_aggregated_False)

text \<open>
  The effect of a batch on the arrays: the scales and weights of the aggregated samples
  are appended as they are, their targets and predictions value by value, and sample by
  sample when they have the shapes the reshapes are written for.
\<close>

lemma accumulate_batch_facts:
  assumes r: "accumulate_batch sw nw b preds a = Inr a1" and len: "length preds = length b"
  shows "losses a1 = losses a"
    and "concat (epoch_scales a1)
         = concat (epoch_scales a) @ map loss_input0 (filter (spec_aggregated sw nw) b)"
    and "concat (epoch_ws a1)
         = concat (epoch_ws a) @ map loss_input1 (filter (spec_aggregated sw nw) b)"
    and "concat (concat (epoch_ys a1))
         = concat (concat (epoch_ys a)) @ concat (map smp_y (filter (spec_aggregated sw nw) b))"
    and "concat (concat (concat (epoch_preds a1)))
         = concat (concat (concat (epoch_preds a))) @ concat (concat (selected sw nw b preds))"
    and "(sw \<longrightarrow> list_all horizon_28 (filter (spec_aggregated sw nw) b)) \<Longrightarrow>
         concat (epoch_ys a1)
         = concat (epoch_ys a) @ map smp_y (filter (spec_aggregated sw nw) b)"
    and "(sw \<longrightarrow> list_all shape_28_9 (selected sw nw b preds)) \<Longrightarrow>
         concat (epoch_preds a1) = concat (epoch_preds a) @ selected sw nw b preds"
proof -
  let ?sel = "filter (spec_aggregated sw nw) b"
  show "losses a1 = losses a"
    using r by (auto simp: accumulate_batch_def Let_def split: if_splits sum.splits)
  have all: "concat (epoch_scales a1) = concat (epoch_scales a) @ map loss_input0 ?sel
    \<and> concat (epoch_ws a1) = concat (epoch_ws a) @ map loss_input1 ?sel
    \<and> concat (concat (epoch_ys a1)) = concat (concat (epoch_ys a)) @ concat (map smp_y ?sel)
    \<and> concat (concat (concat (epoch_preds a1)))
        = concat (concat (concat (epoch_preds a))) @ concat (concat (selected sw nw b preds))
    \<and> ((sw \<longrightarrow> list_all horizon_28 ?sel) \<longrightarrow>
        concat (epoch_ys a1) = concat (epoch_ys a) @ map smp_y ?sel)
    \<and> ((sw \<longrightarrow> list_all shape_28_9 (selected sw nw b preds)) \<longrightarrow>
        concat (epoch_preds a1) = concat (epoch_preds a) @ selected sw nw b preds)"
  proof (cases sw)
    case False
    then have sw: "sw = False" by simp
    from r show ?thesis
      unfolding sw accumulate_batch_plain filter_spec_aggregated_False
      by (auto simp: selected_all len)
  next
    case True
    then have sw: "sw = True" by simp
    show ?thesis
    proof (cases "filter (spec_aggregated True nw) b = []")
      case True
      with r len show ?thesis
        unfolding sw by (simp add: accumulate_batch_sliding selected_none)
    next
      case False
      with r len obtain ys ps where
        ys: "reshape_rows 28 (concat (map smp_y (filter (spec_aggregated True nw) b))) = Inr ys"
        and ps: "reshape_28_9 (concat (concat (selected True nw b preds))) = Inr ps"
        and a1: "a1 = a\<lparr>epoch_ys := epoch_ys a @ [ys],
                       epoch_scales := epoch_scales a
                          @ [map loss_input0 (filter (spec_aggregated True nw) b)],
                       epoch_ws := epoch_ws a
                          @ [map loss_input1 (filter (spec_aggregated True nw) b)],
                       epoch_preds := epoch_preds a @ [ps]\<rparr>"
        unfolding sw by (auto simp: accumulate_batch_sliding split: sum.splits)
      have ysx: "ys = map smp_y (filter (spec_aggregated True nw) b)"
        if "list_all horizon_28 (filter (spec_aggregated True nw) b)"
      proof -
        from that have "\<forall>r \<in> set (map smp_y (filter (spec_aggregated True nw) b)). length r = 28"
          by (auto simp: list_all_iff horizon_28_def)
        from reshape_rows_exact[OF this] ys show ?thesis by simp
      qed
      have psx: "ps = selected True nw b preds"
        if "list_all shape_28_9 (selected True nw b preds)"
        using reshape_28_9_exact[OF that] ps by simp
      show ?thesis
        unfolding sw a1
        using reshape_rows_content[OF ys] reshape_28_9_content[OF ps] ysx psx by simp
    qed
  qed
  then show "concat (epoch_scales a1)
         = concat (epoch_scales a) @ map loss_input0 (filter (spec_aggregated sw nw) b)"
    and "concat (epoch_ws a1)
         = concat (epoch_ws a) @ map loss_input1 (filter (spec_aggregated sw nw) b)"
    and "concat (concat (epoch_ys a1))
         = concat (concat (epoch_ys a)) @ concat (map smp_y (filter (spec_aggregated sw nw) b))"
    and "concat (concat (concat (epoch_preds a1)))
         = concat (concat (concat (epoch_preds a))) @ concat (concat (selected sw nw b preds))"
    and "(sw \<longrightarrow> list_all horizon_28 (filter (spec_aggregated sw nw) b)) \<Longrightarrow>
         concat (epoch_ys a1)
         = concat (epoch_ys a) @ map smp_y (filter (spec_aggregated sw nw) b)"
    and "(sw \<longrightarrow> list_all shape_28_9 (selected sw nw b preds)) \<Longrightarrow>
         concat (epoch_preds a1) = concat (epoch_preds a) @ selected sw nw b preds"
    by blast+
qed


lemma train_batches_step:
  "accumulate_batch sw nw b (predict C w mode b) a = Inr a1 \<Longrightarrow>
   train_batches C sw nw mode opt w a (b # bs)
   = train_batches C sw nw mode (fst (update C opt w b)) (snd (update C opt w b))
       (a1\<lparr>losses := losses a1 @ [batch_loss C (predict C w mode b) b]\<rparr>) bs"
  by (simp add: Let_def case_prod_beta)

lemma train_batches_Cons:
  assumes "train_batches C sw nw mode opt w a (b # bs) = Inr (st', a')"
  obtains a1 where
    "accumulate_batch sw nw b (predict C w mode b) a = Inr a1"
    "train_batches C sw nw mode (fst (update C opt w b)) (snd (update C opt w b))
       (a1\<lparr>losses := losses a1 @ [batch_loss C (predict C w mode b) b]\<rparr>) bs = Inr (st', a')"
  using assms by (auto simp: Let_def split: sum.splits prod.splits)







text \<open>
  In sliding-window mode the same batch with targets of one step raises: the two
  selected values cannot be reshaped to rows of 28.
\<close>

lemma sliding_window_short_targets_raise:
  "train_batches ex_collab True 3 True 0 0 no_accum [ex_short_batch] = Inl ValueError"
  by (simp add: accumulate_batch_def Let_def masked_def reshape_rows_def ex_short_batch_def
      ex_sample_def)

subsection \<open>The validation pass\<close>

text \<open>The accumulators after the loop over the validation batches: every batch, whole.\<close>

lemma val_batches_accum:
  "epoch_ys (val_batches C mode w a bs) = epoch_ys a @ map (map smp_y) bs
   \<and> epoch_scales (val_batches C mode w a bs) = epoch_scales a @ map (map loss_input0) bs
   \<and> epoch_ws (val_batches C mode w a bs) = epoch_ws a @ map (map loss_input1) bs
   \<and> epoch_preds (val_batches C mode w a bs) = epoch_preds a @ map (predict C w mode) bs
   \<and> losses (val_batches C mode w a bs)
       = losses a @ map (\<lambda>b. batch_loss C (predict C w mode b) b) bs"
  by (induction bs arbitrary: a) (simp_all add: Let_def)

text \<open>
  On one batch, the training loop without sliding-window mode returns the accumulators
  the validation loop fills in the same mode of the model, and in either mode of
  aggregation it appends the same loss when it returns.
\<close>

lemma train_body_is_val_body:
  "train_batches C False nw mode opt w a [b]
   = Inr (update C opt w b, val_batches C mode w a [b])"
  "\<forall>st a'. train_batches C sw nw mode opt w a [b] = Inr (st, a') \<longrightarrow>
     losses a' = losses (val_batches C mode w a [b])"
proof -
  show "train_batches C False nw mode opt w a [b]
   = Inr (update C opt w b, val_batches C mode w a [b])"
    unfolding train_batches_step[OF accumulate_batch_plain]
    by (simp add: Let_def)
  show "\<forall>st a'. train_batches C sw nw mode opt w a [b] = Inr (st, a') \<longrightarrow>
     losses a' = losses (val_batches C mode w a [b])"
  proof (intro allI impI)
    fix st a'
    assume r: "train_batches C sw nw mode opt w a [b] = Inr (st, a')"
    then obtain a1 where
      a1: "accumulate_batch sw nw b (predict C w mode b) a = Inr a1"
      and rest: "train_batches C sw nw mode (fst (update C opt w b)) (snd (update C opt w b))
         (a1\<lparr>losses := losses a1 @ [batch_loss C (predict C w mode b) b]\<rparr>) [] = Inr (st, a')"
      by (rule train_batches_Cons)
    from rest have "losses a' = losses a1 @ [batch_loss C (predict C w mode b) b]" by auto
    with accumulate_batch_facts(1)[OF a1 length_predict]
    show "losses a' = losses (val_batches C mode w a [b])" by (simp add: Let_def)
  qed
qed

text \<open>
  C6. A validation pass that returns leaves the trainer as it was but for the model being
  in evaluation mode: parameters, optimizer and scheduler are unchanged. Its predictions
  are the forward pass in evaluation mode times the normalisation factor and its losses
  the criterion on whole batches, the computation of the training loop; the error metrics
  are taken over every sample of every validation batch, with no filtering by window.
\<close>

theorem validation_pass:
  fixes C :: "('w, 'o, 's, 'x, 'sp) collab"
  assumes r: "get_val_loss_and_err C T e = Inr ((val_loss, val_error, val_error_2), T')"
  shows
  "T' = T\<lparr>training := False\<rparr>
   \<and> model T' = model T \<and> optimizer T' = optimizer T \<and> scheduler T' = scheduler T
   \<and> val_loss = loss_agg T
        (map (\<lambda>b. criterion C (predict C (model T) False b)
                     (map smp_y b) (map loss_input0 b) (map loss_input1 b)) (val_loader T e))
   \<and> val_error = get_error C (concat (map (predict C (model T) False) (val_loader T e)))
        (map smp_y (concat (val_loader T e))) (map loss_input0 (concat (val_loader T e)))
        (map loss_input1 (concat (val_loader T e)))
   \<and> (\<exists>p4. channel_4 (concat (map (predict C (model T) False) (val_loader T e))) = Inr p4
        \<and> val_error_2 = get_error_2 C p4
            (map smp_y (concat (val_loader T e))) (map loss_input0 (concat (val_loader T e)))
            (map loss_input1 (concat (val_loader T e))))
   \<and> train_batches C False nw mode opt w a [b]
       = Inr (update C opt w b, val_batches C mode w a [b])
   \<and> (\<forall>st a'. train_batches C sw nw mode opt w a [b] = Inr (st, a') \<longrightarrow>
         losses a' = losses (val_batches C mode w a [b]))"
proof -
  let ?bs = "val_loader T e"
  let ?a = "val_batches C False (model T) no_accum ?bs"
  note acc = val_batches_accum[of C False "model T" no_accum ?bs]
  have T': "T' = T\<lparr>training := False\<rparr>" by (rule get_val_loss_and_err_trainer[OF r])
  from r have ne: "?bs \<noteq> []"
    by (auto simp: get_val_loss_and_err_def Let_def concatenate_epoch_def np_concatenate_def
        no_accum_def split: sum.splits prod.splits if_splits)
  have cat: "concatenate_epoch ?a =
      Inr (concat (map (predict C (model T) False) ?bs), map smp_y (concat ?bs),
           map loss_input1 (concat ?bs), map loss_input0 (concat ?bs))"
    using ne acc by (simp add: concatenate_epoch_def np_concatenate_def no_accum_def map_concat)
  have ls: "losses ?a = map (\<lambda>b. criterion C (predict C (model T) False b)
                     (map smp_y b) (map loss_input0 b) (map loss_input1 b)) ?bs"
    using acc by (simp add: no_accum_def batch_loss_def)
  from r have vals: "val_loss = loss_agg T (losses ?a)"
    "val_error = get_error C (concat (map (predict C (model T) False) ?bs))
        (map smp_y (concat ?bs)) (map loss_input0 (concat ?bs)) (map loss_input1 (concat ?bs))"
    "\<exists>p4. channel_4 (concat (map (predict C (model T) False) ?bs)) = Inr p4
        \<and> val_error_2 = get_error_2 C p4
            (map smp_y (concat ?bs)) (map loss_input0 (concat ?bs)) (map loss_input1 (concat ?bs))"
    unfolding get_val_loss_and_err_def Let_def
    by (auto simp: cat loss_agg_def split: sum.splits)
  have vl: "val_loss = loss_agg T
        (map (\<lambda>b. criterion C (predict C (model T) False b)
                     (map smp_y b) (map loss_input0 b) (map loss_input1 b)) ?bs)"
    using vals(1) ls by (simp only:)
  have fr: "model T' = model T" "optimizer T' = optimizer T" "scheduler T' = scheduler T"
    using T' by simp_all
  note tb1 = train_body_is_val_body(1)[of C nw mode opt w a b]
  note tb2 = train_body_is_val_body(2)[of C sw nw mode opt w a b]
  from T' fr vl vals(2,3) tb1 tb2 show ?thesis by (intro conjI)
qed

text \<open>The validation pass of the instance before any training: loss 5, error 4.\<close>

lemma ex_val_run:
  "\<exists>T'. get_val_loss_and_err ex_collab (ex_trainer ex_config) 1 = Inr ((5, 4, 0), T')"
  by (simp add: run_defs ex_defs)

theorem validation_pass_witness:
  "\<exists>T'. get_val_loss_and_err ex_collab (ex_trainer ex_config) 1 = Inr ((5, 4, 0), T')
     \<and> training (ex_trainer ex_config) \<and> \<not> training T'
     \<and> model T' = 0 \<and> optimizer T' = 0 \<and> scheduler T' = 0
     \<and> map length (val_loader (ex_trainer ex_config) 1) = [1]"
proof -
  obtain T' where r: "get_val_loss_and_err ex_collab (ex_trainer ex_config) 1 = Inr ((5, 4, 0), T')"
    using ex_val_run by (elim exE)
  have "T' = (ex_trainer ex_config)\<lparr>training := False\<rparr>"
    by (rule validation_pass[OF r, THEN conjunct1])
  with r show ?thesis by (simp add: ex_defs)
qed

subsection \<open>The k-fold driver\<close>

text \<open>Folds whose index is before the start fold are passed over without any effect.\<close>

lemma fold_loop_skip:
  "\<forall>k \<in> fst ` set pre. int k < sf \<Longrightarrow>
   fold_loop C sf cfg cp logs (pre @ rest) = fold_loop C sf cfg cp logs rest"
  by (induction pre) auto

text \<open>A fold that is not passed over constructs a trainer, trains it, and goes on.\<close>

lemma fold_loop_run_cases:
  assumes "fold_loop C sf cfg cp logs ((k, tr, va) # rest) = Inr runs" and "sf \<le> int k"
  obtains T logs' ocs T' runs' where
    "Trainer_init C (cfg\<lparr>fold := Some (k + 1), training_ts := tr, validation_ts := va\<rparr>) cp logs
       = Inr (T, logs')"
    "train C T = Inr (ocs, T')"
    "fold_loop C sf (cfg\<lparr>fold := Some (k + 1), training_ts := tr, validation_ts := va,
                        resume_training := False\<rparr>) (model_checkpoint T') logs' rest = Inr runs'"
    "runs = (T, ocs, T') # runs'"
  using assms by (auto simp: Let_def split: sum.splits prod.splits)

text \<open>From the start fold on, a driver that completes has run every fold.\<close>

lemma fold_loop_length:
  "sf \<le> int n \<Longrightarrow> fold_loop C sf cfg cp logs (enumerate n splits) = Inr runs \<Longrightarrow>
   length runs = length splits"
proof (induction splits arbitrary: n cfg cp logs runs)
  case Nil
  then show ?case by simp
next
  case (Cons sp splits)
  obtain tr va where sp: "sp = (tr, va)" by (cases sp)
  from Cons.prems(2) have "fold_loop C sf cfg cp logs ((n, tr, va) # enumerate (Suc n) splits) = Inr runs"
    by (simp add: sp)
  from this Cons.prems(1) obtain T logs' ocs T' runs' where
    rest: "fold_loop C sf (cfg\<lparr>fold := Some (n + 1), training_ts := tr, validation_ts := va,
                        resume_training := False\<rparr>) (model_checkpoint T') logs'
             (enumerate (Suc n) splits) = Inr runs'"
    and runs: "runs = (T, ocs, T') # runs'"
    by (rule fold_loop_run_cases)
  from Cons.IH[OF _ rest] Cons.prems(1) runs show ?case by simp
qed

text \<open>
  The \<open>j\<close>-th of these runs: its configuration, that its trainer is the one the
  constructor builds from that configuration, that its outcome is that of \<open>train\<close>, and
  that it starts on the checkpoint storage the run before it has left.
\<close>

lemma fold_loop_runs:
  "sf \<le> int n \<Longrightarrow> fold_loop C sf cfg cp logs (enumerate n splits) = Inr runs \<Longrightarrow>
   j < length splits \<Longrightarrow>
   config (fst (runs ! j))
     = cfg\<lparr>fold := Some (n + j + 1), training_ts := fst (splits ! j),
           validation_ts := snd (splits ! j),
           resume_training := (j = 0 \<and> resume_training cfg)\<rparr>
   \<and> (\<exists>cp' logs' logs''.
         Trainer_init C (config (fst (runs ! j))) cp' logs' = Inr (fst (runs ! j), logs''))
   \<and> train C (fst (runs ! j)) = Inr (snd (runs ! j))
   \<and> model_checkpoint (fst (runs ! j))
       = (if j = 0 then cp else model_checkpoint (snd (snd (runs ! (j - 1)))))"
proof (induction splits arbitrary: n cfg cp logs runs j)
  case Nil
  then show ?case by simp
next
  case (Cons sp splits)
  obtain tr va where sp: "sp = (tr, va)" by (cases sp)
  let ?cfg1 = "cfg\<lparr>fold := Some (n + 1), training_ts := tr, validation_ts := va\<rparr>"
  let ?cfg2 = "cfg\<lparr>fold := Some (n + 1), training_ts := tr, validation_ts := va,
                   resume_training := False\<rparr>"
  from Cons.prems(2) have "fold_loop C sf cfg cp logs ((n, tr, va) # enumerate (Suc n) splits) = Inr runs"
    by (simp add: sp)
  from this Cons.prems(1) obtain T logs' ocs T' runs' where
    init: "Trainer_init C ?cfg1 cp logs = Inr (T, logs')"
    and tr: "train C T = Inr (ocs, T')"
    and rest: "fold_loop C sf ?cfg2 (model_checkpoint T') logs' (enumerate (Suc n) splits) = Inr runs'"
    and runs: "runs = (T, ocs, T') # runs'"
    by (rule fold_loop_run_cases)
  have cT: "config T = ?cfg1" by (rule Trainer_init_fields(1)[OF init])
  show ?case
  proof (cases j)
    case 0
    have "Trainer_init C (config T) cp logs = Inr (T, logs')" using init cT by simp
    then have "\<exists>cp' logs' logs''. Trainer_init C (config T) cp' logs' = Inr (T, logs'')" by blast
    then show ?thesis
      using 0 runs cT tr Trainer_init_fields(4)[OF init] by (simp add: sp)
  next
    case (Suc i)
    with Cons.prems(3) have i: "i < length splits" by simp
    have sf: "sf \<le> int (Suc n)" using Cons.prems(1) by simp
    note ih = Cons.IH[OF sf rest i]
    have c: "config (fst (runs' ! i))
       = cfg\<lparr>fold := Some (n + Suc i + 1), training_ts := fst (splits ! i),
             validation_ts := snd (splits ! i), resume_training := False\<rparr>"
      using ih by simp
    have m: "model_checkpoint (fst (runs' ! i))
       = model_checkpoint (snd (snd (runs ! i)))"
    proof (cases i)
      case 0
      then show ?thesis using ih runs by simp
    next
      case (Suc i')
      then show ?thesis using ih runs by simp
    qed
    have nth: "runs ! j = runs' ! i" using Suc runs by simp
    have c': "config (fst (runs ! j))
       = cfg\<lparr>fold := Some (n + j + 1), training_ts := fst ((sp # splits) ! j),
             validation_ts := snd ((sp # splits) ! j),
             resume_training := (j = 0 \<and> resume_training cfg)\<rparr>"
      unfolding nth c using Suc by simp
    have e: "\<exists>cp' logs' logs''.
         Trainer_init C (config (fst (runs ! j))) cp' logs' = Inr (fst (runs ! j), logs'')"
      unfolding nth using ih by blast
    have t: "train C (fst (runs ! j)) = Inr (snd (runs ! j))"
      unfolding nth using ih by blast
    have m': "model_checkpoint (fst (runs ! j))
       = (if j = 0 then cp else model_checkpoint (snd (snd (runs ! (j - 1)))))"
      unfolding nth m using Suc by simp
    from c' e t m' show ?thesis by (intro conjI)
  qed
qed

text \<open>
  C7. With cross-validation enabled and resumption requested from fold \<open>F\<close>, a driver
  that completes has run the folds \<open>F, F + 1, ...\<close> up to the last and no fold before
  \<open>F\<close>, each with its own split. The trainer of fold \<open>F\<close> is constructed with the
  resume flag set, every later one with the flag cleared, so that it starts at epoch 1
  with no best error, a fresh monitor and a newly created model. Every trainer is the one
  the constructor builds from the configuration of its fold, and it is constructed on the
  checkpoint storage left by the training of the fold before it: the folds run one after
  another.
\<close>

theorem k_fold_resume_schedule:
  fixes C :: "('w, 'o, 's, 'x, 'sp) collab"
  assumes m: "main C cfg cp logs = Inr runs"
    and kf: "k_fold cfg" and res: "resume_training cfg"
    and F: "resume_from_fold cfg = int F" "1 \<le> F" "F \<le> length (k_fold_splits cfg)"
  shows
  "length runs = length (k_fold_splits cfg) - (F - 1)
   \<and> (\<forall>j < length runs.
        config (fst (runs ! j))
          = cfg\<lparr>fold := Some (F + j),
                training_ts := fst (k_fold_splits cfg ! (F - 1 + j)),
                validation_ts := snd (k_fold_splits cfg ! (F - 1 + j)),
                resume_training := (j = 0)\<rparr>
        \<and> (\<exists>cp' logs' logs''.
              Trainer_init C (config (fst (runs ! j))) cp' logs' = Inr (fst (runs ! j), logs''))
        \<and> train C (fst (runs ! j)) = Inr (snd (runs ! j))
        \<and> model_checkpoint (fst (runs ! j))
            = (if j = 0 then cp else model_checkpoint (snd (snd (runs ! (j - 1)))))
        \<and> (0 < j \<longrightarrow>
              start_epoch (fst (runs ! j)) = 1 \<and> min_val_error (fst (runs ! j)) = None
              \<and> early_stopping (fst (runs ! j)) = EarlyStopping 10
              \<and> model (fst (runs ! j)) = create_model C (config (fst (runs ! j)))))"
proof -
  let ?splits = "k_fold_splits cfg"
  let ?pre = "take (F - 1) ?splits" and ?post = "drop (F - 1) ?splits"
  let ?sf = "int F - 1"
  have lp: "length ?pre = F - 1" using F by simp
  have "enumerate 0 ?splits = enumerate 0 (?pre @ ?post)" by simp
  also have "\<dots> = enumerate 0 ?pre @ enumerate (F - 1) ?post"
    unfolding enumerate_append_eq lp by simp
  finally have en: "enumerate 0 ?splits = enumerate 0 ?pre @ enumerate (F - 1) ?post" .
  have "fst ` set (enumerate 0 ?pre) = set (map fst (enumerate 0 ?pre))"
    by (simp only: set_map)
  also have "\<dots> = {0..<F - 1}" unfolding map_fst_enumerate lp by simp
  finally have skip: "\<forall>k \<in> fst ` set (enumerate 0 ?pre). int k < ?sf" using F by auto
  from m kf res F(1) have "fold_loop C ?sf cfg cp logs (enumerate 0 ?splits) = Inr runs"
    by (simp add: main_def)
  then have l: "fold_loop C ?sf cfg cp logs (enumerate (F - 1) ?post) = Inr runs"
    unfolding en fold_loop_skip[OF skip] .
  have sf: "?sf \<le> int (F - 1)" using F by simp
  have len: "length runs = length ?splits - (F - 1)"
    using fold_loop_length[OF sf l] by simp
  have each: "config (fst (runs ! j))
          = cfg\<lparr>fold := Some (F + j),
                training_ts := fst (?splits ! (F - 1 + j)),
                validation_ts := snd (?splits ! (F - 1 + j)),
                resume_training := (j = 0)\<rparr>
        \<and> (\<exists>cp' logs' logs''.
              Trainer_init C (config (fst (runs ! j))) cp' logs' = Inr (fst (runs ! j), logs''))
        \<and> train C (fst (runs ! j)) = Inr (snd (runs ! j))
        \<and> model_checkpoint (fst (runs ! j))
            = (if j = 0 then cp else model_checkpoint (snd (snd (runs ! (j - 1)))))
        \<and> (0 < j \<longrightarrow>
              start_epoch (fst (runs ! j)) = 1 \<and> min_val_error (fst (runs ! j)) = None
              \<and> early_stopping (fst (runs ! j)) = EarlyStopping 10
              \<and> model (fst (runs ! j)) = create_model C (config (fst (runs ! j))))"
    if j: "j < length runs" for j
  proof -
    from j len have jp: "j < length ?post" by simp
    note r = fold_loop_runs[OF sf l jp]
    have idx: "?post ! j = ?splits ! (F - 1 + j)" using jp by simp
    have c: "config (fst (runs ! j))
          = cfg\<lparr>fold := Some (F + j),
                training_ts := fst (?splits ! (F - 1 + j)),
                validation_ts := snd (?splits ! (F - 1 + j)),
                resume_training := (j = 0)\<rparr>"
      using r res F(2) unfolding idx by simp
    from r obtain cp' logs' logs'' where
      i: "Trainer_init C (config (fst (runs ! j))) cp' logs' = Inr (fst (runs ! j), logs'')"
      by blast
    have fresh: "start_epoch (fst (runs ! j)) = 1 \<and> min_val_error (fst (runs ! j)) = None
              \<and> early_stopping (fst (runs ! j)) = EarlyStopping 10
              \<and> model (fst (runs ! j)) = create_model C (config (fst (runs ! j)))"
      if "0 < j"
    proof -
      from that c have "\<not> resume_training (config (fst (runs ! j)))" by simp
      from Trainer_init_fields(8)[OF i this] show ?thesis by blast
    qed
    from c r fresh show ?thesis by blast
  qed
  from len each show ?thesis by blast
qed

text \<open>
  Three folds without sliding windows, resumed from fold 2: fold 2 runs epoch 2, fold 3
  runs epochs 1 and 2.
\<close>

lemma ex_kfold_run:
  "\<exists>runs. main ex_collab ex_kfold_config ex_fold_checkpoints [] = Inr runs
     \<and> map (\<lambda>(T, ocs, T'). (fold (config T), start_epoch T, map oc_epoch ocs)) runs
         = [(Some 2, 2, [2]), (Some 3, 1, [1, 2])]"
  by (simp add: main_def run_defs ex_defs enumerate_eq_zip)

theorem k_fold_resume_schedule_witness:
  "\<exists>runs. main ex_collab ex_kfold_config ex_fold_checkpoints [] = Inr runs
     \<and> length (k_fold_splits ex_kfold_config) = 3
     \<and> resume_from_fold ex_kfold_config = 2 \<and> \<not> sliding_window ex_kfold_config
     \<and> map (\<lambda>(T, ocs, T'). (fold (config T), start_epoch T, map oc_epoch ocs)) runs
         = [(Some 2, 2, [2]), (Some 3, 1, [1, 2])]
     \<and> map (\<lambda>(T, ocs, T'). resume_training (config T)) runs = [True, False]"
proof -
  obtain runs where r: "main ex_collab ex_kfold_config ex_fold_checkpoints [] = Inr runs"
    and v: "map (\<lambda>(T, ocs, T'). (fold (config T), start_epoch T, map oc_epoch ocs)) runs
         = [(Some 2, 2, [2]), (Some 3, 1, [1, 2])]"
    using ex_kfold_run by (elim exE conjE)
  have h: "k_fold ex_kfold_config" "resume_training ex_kfold_config"
    "resume_from_fold ex_kfold_config = int 2" "1 \<le> (2::nat)"
    "2 \<le> length (k_fold_splits ex_kfold_config)"
    "length (k_fold_splits ex_kfold_config) = 3" "\<not> sliding_window ex_kfold_config"
    by (simp_all add: ex_defs)
  note s = k_fold_resume_schedule[OF r h(1-5)]
  from s have len: "length runs = 2" using h(6) by simp
  then obtain a b where runs: "runs = [a, b]"
    by (cases runs; cases "tl runs") auto
  from s len have "resume_training (config (fst (runs ! 0)))"
    "\<not> resume_training (config (fst (runs ! 1)))"
    by simp_all
  then have "map (\<lambda>(T, ocs, T'). resume_training (config T)) runs = [True, False]"
    unfolding runs by (simp add: case_prod_beta)
  with r v h show ?thesis by (intro exI[of _ runs] conjI) simp_all
qed

end
